theory Spec2Isabelle
  imports Complex_Main "HOL-Library.Char_ord"
begin

section \<open>Floating-point values and Python errors\<close>

text \<open>
  The script \<^verbatim>\<open>scripts/convert_gml_to_json.py\<close> computes with Python floats, which are
  IEEE 754 doubles. A finite float is modelled as the real number it stands for, beside the
  three special values. Every operation computes its exact result and rounds it to the
  nearest double, ties to even, overflowing to an infinity (\<open>round_double\<close>); the special
  values follow IEEE 754 as Python exposes it. The sign of zero is not modelled.
\<close>

datatype pyfloat = Fin real | PInf | NInf | NaN

text \<open>
  Rounding to the nearest integer, ties to even; the exponent of the unit in the last place
  of a double near \<open>x\<close> (53 significant bits, subnormals below \<open>2\<^sup>-\<^sup>1\<^sup>0\<^sup>2\<^sup>2\<close>); the nearest
  double; and the reals that are doubles.
\<close>

definition rne :: "real \<Rightarrow> int" where
  "rne y = (let f = \<lfloor>y\<rfloor>; d = y - of_int f
            in if d < 1 / 2 then f else if 1 / 2 < d then f + 1
               else if even f then f else f + 1)"

definition ulp_exp :: "real \<Rightarrow> int" where
  "ulp_exp x = max (- 1074) (\<lfloor>log 2 \<bar>x\<bar>\<rfloor> - 52)"

definition round_double :: "real \<Rightarrow> pyfloat" where
  "round_double x =
     (if x = 0 then Fin 0
      else let u = 2 powi ulp_exp x; r = of_int (rne (x / u)) * u
           in if 2 powi 1024 \<le> \<bar>r\<bar> then (if 0 < x then PInf else NInf) else Fin r)"

definition is_double :: "real \<Rightarrow> bool" where
  "is_double x = (\<exists>m e. x = of_int m * 2 powi e \<and> \<bar>m\<bar> < 2 ^ 53 \<and> - 1074 \<le> e \<and> e \<le> 971)"

datatype value_error =
    NotAFloat string      \<comment> \<open>\<^verbatim>\<open>could not convert string to float\<close>\<close>
  | MathDomain            \<comment> \<open>\<^verbatim>\<open>math domain error\<close>\<close>
  | UnpackNotEnough nat   \<comment> \<open>\<^verbatim>\<open>not enough values to unpack (expected 3, got n)\<close>\<close>
  | UnpackTooMany         \<comment> \<open>\<^verbatim>\<open>too many values to unpack (expected 3)\<close>\<close>
  | RangeStepZero         \<comment> \<open>\<^verbatim>\<open>range() arg 3 must not be zero\<close>\<close>

datatype error = ValueError value_error | ZeroDivisionError | SystemExit string

fun py_neg :: "pyfloat \<Rightarrow> pyfloat" where
  "py_neg (Fin a) = Fin (- a)"
| "py_neg PInf = NInf"
| "py_neg NInf = PInf"
| "py_neg NaN = NaN"

fun py_add :: "pyfloat \<Rightarrow> pyfloat \<Rightarrow> pyfloat" where
  "py_add NaN _ = NaN"
| "py_add _ NaN = NaN"
| "py_add (Fin a) (Fin b) = round_double (a + b)"
| "py_add (Fin a) PInf = PInf"
| "py_add (Fin a) NInf = NInf"
| "py_add PInf (Fin b) = PInf"
| "py_add NInf (Fin b) = NInf"
| "py_add PInf PInf = PInf"
| "py_add NInf NInf = NInf"
| "py_add PInf NInf = NaN"
| "py_add NInf PInf = NaN"

definition py_sub :: "pyfloat \<Rightarrow> pyfloat \<Rightarrow> pyfloat" where
  "py_sub a b = py_add a (py_neg b)"

fun py_mul :: "pyfloat \<Rightarrow> pyfloat \<Rightarrow> pyfloat" where
  "py_mul NaN _ = NaN"
| "py_mul _ NaN = NaN"
| "py_mul (Fin a) (Fin b) = round_double (a * b)"
| "py_mul (Fin a) PInf = (if a = 0 then NaN else if 0 < a then PInf else NInf)"
| "py_mul (Fin a) NInf = (if a = 0 then NaN else if 0 < a then NInf else PInf)"
| "py_mul PInf (Fin b) = (if b = 0 then NaN else if 0 < b then PInf else NInf)"
| "py_mul NInf (Fin b) = (if b = 0 then NaN else if 0 < b then NInf else PInf)"
| "py_mul PInf PInf = PInf"
| "py_mul NInf NInf = PInf"
| "py_mul PInf NInf = NInf"
| "py_mul NInf PInf = NInf"

text \<open>
  \<^verbatim>\<open>x / n\<close> for a float \<open>x\<close> and the integer \<open>n = len(...)\<close>, which is never negative
  (and, below \<open>2\<^sup>5\<^sup>3\<close>, is converted to a float exactly).
\<close>

fun py_truediv :: "pyfloat \<Rightarrow> nat \<Rightarrow> error + pyfloat" where
  "py_truediv x 0 = Inl ZeroDivisionError"
| "py_truediv (Fin a) n = Inr (round_double (a / real n))"
| "py_truediv x n = Inr x"

text \<open>\<^verbatim>\<open>a < b\<close> and \<^verbatim>\<open>a == b\<close> on floats: every comparison with NaN is false.\<close>

fun py_lt :: "pyfloat \<Rightarrow> pyfloat \<Rightarrow> bool" where
  "py_lt NaN _ = False"
| "py_lt _ NaN = False"
| "py_lt (Fin a) (Fin b) = (a < b)"
| "py_lt (Fin a) PInf = True"
| "py_lt (Fin a) NInf = False"
| "py_lt PInf _ = False"
| "py_lt NInf (Fin b) = True"
| "py_lt NInf PInf = True"
| "py_lt NInf NInf = False"

definition py_eq :: "pyfloat \<Rightarrow> pyfloat \<Rightarrow> bool" where
  "py_eq a b = (a \<noteq> NaN \<and> a = b)"

definition py_le :: "pyfloat \<Rightarrow> pyfloat \<Rightarrow> bool" where
  "py_le a b = (py_lt a b \<or> py_eq a b)"

text \<open>
  The builtins \<^verbatim>\<open>min(a, b)\<close> and \<^verbatim>\<open>max(a, b)\<close> keep the first argument unless the
  second one compares strictly smaller (larger).
\<close>

definition py_min :: "pyfloat \<Rightarrow> pyfloat \<Rightarrow> pyfloat" where
  "py_min a b = (if py_lt b a then b else a)"

definition py_max :: "pyfloat \<Rightarrow> pyfloat \<Rightarrow> pyfloat" where
  "py_max a b = (if py_lt a b then b else a)"

text \<open>\<^verbatim>\<open>sum(xs)\<close> starts from the integer 0 and adds from the left.\<close>

definition py_sum :: "pyfloat list \<Rightarrow> pyfloat" where
  "py_sum xs = foldl py_add (Fin 0) xs"

text \<open>
  \<^verbatim>\<open>math.radians(x)\<close> is \<^verbatim>\<open>x * degToRad\<close>, where the constant is the double
  \<^verbatim>\<open>Py_MATH_PI / 180.0\<close> and \<^verbatim>\<open>Py_MATH_PI\<close> is the double nearest to \<open>\<pi>\<close>.
  \<^verbatim>\<open>math.cos\<close> is taken to return the double nearest to the cosine; the cosine of an
  infinity raises.
\<close>

definition Py_MATH_PI :: real where
  "Py_MATH_PI = 884279719003555 / 281474976710656"

definition degToRad :: pyfloat where
  "degToRad = round_double (Py_MATH_PI / 180)"

definition radians :: "pyfloat \<Rightarrow> pyfloat" where
  "radians d = py_mul d degToRad"

fun py_cos :: "pyfloat \<Rightarrow> error + pyfloat" where
  "py_cos (Fin a) = Inr (round_double (cos a))"
| "py_cos NaN = Inr NaN"
| "py_cos PInf = Inl (ValueError MathDomain)"
| "py_cos NInf = Inl (ValueError MathDomain)"

section \<open>Text: \<^verbatim>\<open>str.split()\<close> and \<^verbatim>\<open>float(str)\<close>\<close>

text \<open>
  Text is a list of characters with code points below 256. \<^verbatim>\<open>str.split()\<close> without
  arguments cuts at runs of whitespace and returns no empty token.
\<close>

definition is_space :: "char \<Rightarrow> bool" where
  "is_space c = (c \<in> set [CHR 0x09, CHR 0x0A, CHR 0x0B, CHR 0x0C, CHR 0x0D,
                           CHR 0x1C, CHR 0x1D, CHR 0x1E, CHR 0x1F, CHR 0x20,
                           CHR 0x85, CHR 0xA0])"

fun split_from :: "string \<Rightarrow> string \<Rightarrow> string list" where
  "split_from cur [] = (if cur = [] then [] else [cur])"
| "split_from cur (c # cs) =
     (if is_space c then (if cur = [] then split_from [] cs else cur # split_from [] cs)
      else split_from (cur @ [c]) cs)"

definition py_split :: "string \<Rightarrow> string list" where
  "py_split s = split_from [] s"

text \<open>
  \<^verbatim>\<open>float(s)\<close> on a token without whitespace accepts
  \<^verbatim>\<open>[sign] (floatnumber | "inf" | "infinity" | "nan")\<close>, the words in any letter case,
  where \<^verbatim>\<open>floatnumber\<close> is a decimal number with an optional exponent and single
  underscores are allowed between digits. The result is the double nearest to the decimal
  value, an infinity when that is out of range.
\<close>

definition is_digit :: "char \<Rightarrow> bool" where
  "is_digit c = (CHR ''0'' \<le> c \<and> c \<le> CHR ''9'')"

definition digit_val :: "char \<Rightarrow> nat" where
  "digit_val c = of_char c - 48"

definition digits_val :: "string \<Rightarrow> nat" where
  "digits_val ds = foldl (\<lambda>a c. 10 * a + digit_val c) 0 ds"

definition ascii_lower :: "char \<Rightarrow> char" where
  "ascii_lower c =
     (case map_of (zip ''ABCDEFGHIJKLMNOPQRSTUVWXYZ'' ''abcdefghijklmnopqrstuvwxyz'') c of
        Some l \<Rightarrow> l | None \<Rightarrow> c)"

text \<open>\<open>digits_tail acc s\<close> continues a digit part after a digit; \<open>digitpart\<close> starts one.\<close>

fun digits_tail :: "string \<Rightarrow> string \<Rightarrow> string \<times> string" where
  "digits_tail acc [] = (acc, [])"
| "digits_tail acc [c] = (if is_digit c then (acc @ [c], []) else (acc, [c]))"
| "digits_tail acc (c # d # ds) =
     (if is_digit c then digits_tail (acc @ [c]) (d # ds)
      else if c = CHR ''_'' \<and> is_digit d then digits_tail (acc @ [d]) ds
      else (acc, c # d # ds))"

fun digitpart :: "string \<Rightarrow> string \<times> string" where
  "digitpart [] = ([], [])"
| "digitpart (c # cs) = (if is_digit c then digits_tail [c] cs else ([], c # cs))"

fun strip_sign :: "string \<Rightarrow> bool \<times> string" where
  "strip_sign (c # cs) =
     (if c = CHR ''-'' then (True, cs) else if c = CHR ''+'' then (False, cs)
      else (False, c # cs))"
| "strip_sign [] = (False, [])"

text \<open>The exponent: nothing, or \<^verbatim>\<open>e\<close>/\<^verbatim>\<open>E\<close>, an optional sign and a digit part, up to the end.\<close>

definition parse_exponent :: "string \<Rightarrow> int option" where
  "parse_exponent s =
     (case s of
        [] \<Rightarrow> Some 0
      | c # cs \<Rightarrow>
          if c = CHR ''e'' \<or> c = CHR ''E'' then
            (let (neg, r) = strip_sign cs; (ds, rest) = digitpart r
             in if ds = [] \<or> rest \<noteq> [] then None
                else Some (if neg then - int (digits_val ds) else int (digits_val ds)))
          else None)"

definition parse_number :: "string \<Rightarrow> real option" where
  "parse_number s =
     (let (ip, r1) = digitpart s;
          (fp, r2) = (case r1 of
                        c # cs \<Rightarrow> if c = CHR ''.'' then digitpart cs else ([], r1)
                      | [] \<Rightarrow> ([], r1))
      in if ip = [] \<and> fp = [] then None
         else (case parse_exponent r2 of
                 None \<Rightarrow> None
               | Some e \<Rightarrow>
                   Some ((real (digits_val ip) + real (digits_val fp) / 10 ^ length fp)
                         * 10 powi e)))"

definition py_float :: "string \<Rightarrow> error + pyfloat" where
  "py_float s =
     (let (neg, r) = strip_sign s; w = map ascii_lower r
      in if w = ''inf'' \<or> w = ''infinity'' then Inr (if neg then NInf else PInf)
         else if w = ''nan'' then Inr NaN
         else (case parse_number r of
                 None \<Rightarrow> Inl (ValueError (NotAFloat s))
               | Some v \<Rightarrow> Inr (round_double (if neg then - v else v))))"

text \<open>\<^verbatim>\<open>[float(v) for v in tokens]\<close>: the first token that is refused raises.\<close>

fun floats_of :: "string list \<Rightarrow> error + pyfloat list" where
  "floats_of [] = Inr []"
| "floats_of (t # ts) =
     (case py_float t of
        Inl e \<Rightarrow> Inl e
      | Inr x \<Rightarrow> (case floats_of ts of Inl e \<Rightarrow> Inl e | Inr xs \<Rightarrow> Inr (x # xs)))"

section \<open>The XML document\<close>

text \<open>
  An element of \<^verbatim>\<open>xml.etree.ElementTree\<close>: its tag (with the namespace expanded, as
  \<^verbatim>\<open>{uri}local\<close>), its text, which may be absent, and its children in document order.
\<close>

datatype element = Element (tag: string) (elem_text: "string option") (children: "element list")

definition GML_NS :: string where
  "GML_NS = ''http://www.opengis.net/gml''"

definition BLDG_NS :: string where
  "BLDG_NS = ''http://www.opengis.net/citygml/building/2.0''"

definition qname :: "string \<Rightarrow> string \<Rightarrow> string" where
  "qname ns local = ''{'' @ ns @ ''}'' @ local"

text \<open>\<^verbatim>\<open>e.iter()\<close>: the element and its descendants, in document order.\<close>

fun iter :: "element \<Rightarrow> element list" where
  "iter (Element t x cs) = Element t x cs # concat (map iter cs)"

text \<open>\<^verbatim>\<open>e.find("ns:name", NS)\<close>: the first child with that tag.\<close>

definition find_child :: "element \<Rightarrow> string \<Rightarrow> element option" where
  "find_child e t = List.find (\<lambda>c. tag c = t) (children e)"

text \<open>\<^verbatim>\<open>e.findall(".//ns:name", NS)\<close>: the proper descendants with that tag, in document order.\<close>

definition findall_descendants :: "element \<Rightarrow> string \<Rightarrow> element list" where
  "findall_descendants e t = filter (\<lambda>d. tag d = t) (concat (map iter (children e)))"

section \<open>Rings and triangles\<close>

type_synonym vertex = "pyfloat list"
type_synonym triangle = "vertex list"

text \<open>
  \<^verbatim>\<open>chunked(seq, size)\<close> yields the slices \<^verbatim>\<open>seq[idx : idx + size]\<close> for
  \<^verbatim>\<open>idx in range(0, len(seq), size)\<close>; a step of zero makes \<^verbatim>\<open>range\<close> raise.
\<close>

function chunks :: "'a list \<Rightarrow> nat \<Rightarrow> 'a list list" where
  "chunks seq sz =
     (if sz = 0 \<or> seq = [] then [] else take sz seq # chunks (drop sz seq) sz)"
  by pat_completeness auto
termination
  by (relation "measure (\<lambda>(seq, sz). length seq)") auto

declare chunks.simps [simp del]

definition chunked :: "'a list \<Rightarrow> nat \<Rightarrow> error + 'a list list" where
  "chunked seq sz = (if sz = 0 then Inl (ValueError RangeStepZero) else Inr (chunks seq sz))"

text \<open>Equality of two tuples of floats: the same length and equal components.\<close>

definition tuple_eq :: "vertex \<Rightarrow> vertex \<Rightarrow> bool" where
  "tuple_eq u v = (length u = length v \<and> list_all2 py_eq u v)"

definition parse_linear_ring :: "element \<Rightarrow> error + vertex list" where
  "parse_linear_ring ring =
     (case find_child ring (qname GML_NS ''posList'') of
        None \<Rightarrow> Inr []
      | Some pos_list \<Rightarrow>
          (case elem_text pos_list of
             None \<Rightarrow> Inr []
           | Some txt \<Rightarrow>
               if txt = [] then Inr []
               else (case floats_of (py_split txt) of
                       Inl e \<Rightarrow> Inl e
                     | Inr raw_values \<Rightarrow>
                         (case chunked raw_values 3 of
                            Inl e \<Rightarrow> Inl e
                          | Inr coords \<Rightarrow>
                              if length coords > 1 \<and> tuple_eq (hd coords) (last coords)
                              then Inr (butlast coords)
                              else Inr coords))))"

definition polygon_to_triangles :: "'a list \<Rightarrow> 'a list list" where
  "polygon_to_triangles coords =
     (if length coords < 3 then []
      else map (\<lambda>i. [coords ! 0, coords ! i, coords ! (i + 1)]) [1..<length coords - 1])"

text \<open>The text of the ring's \<^verbatim>\<open>gml:posList\<close> child, if there is one.\<close>

definition pos_text :: "element \<Rightarrow> string option" where
  "pos_text ring =
     (case find_child ring (qname GML_NS ''posList'') of
        None \<Rightarrow> None
      | Some pos_list \<Rightarrow> elem_text pos_list)"

section \<open>Extraction of one document\<close>

text \<open>
  The two loops of \<^verbatim>\<open>extract_triangles\<close>: over the rings of one search result, and over
  the solids. The first ring that does not parse ends the extraction with its error.
\<close>

fun extend_rings :: "element list \<Rightarrow> triangle list \<Rightarrow> error + triangle list" where
  "extend_rings [] triangles = Inr triangles"
| "extend_rings (ring # rings) triangles =
     (case parse_linear_ring ring of
        Inl e \<Rightarrow> Inl e
      | Inr coords \<Rightarrow> extend_rings rings (triangles @ polygon_to_triangles coords))"

fun extend_solids :: "element list \<Rightarrow> triangle list \<Rightarrow> error + triangle list" where
  "extend_solids [] triangles = Inr triangles"
| "extend_solids (solid # solids) triangles =
     (case extend_rings (findall_descendants solid (qname GML_NS ''LinearRing'')) triangles of
        Inl e \<Rightarrow> Inl e
      | Inr triangles' \<Rightarrow> extend_solids solids triangles')"

definition extract_triangles :: "element \<Rightarrow> error + triangle list" where
  "extract_triangles doc_root =
     (case extend_solids (findall_descendants doc_root (qname BLDG_NS ''lod1Solid'')) [] of
        Inl e \<Rightarrow> Inl e
      | Inr triangles \<Rightarrow>
          if triangles = []
          then extend_rings (findall_descendants doc_root (qname GML_NS ''LinearRing'')) []
          else Inr triangles)"

text \<open>
  The rings the two searches of \<^verbatim>\<open>extract_triangles\<close> visit, in order: those inside the
  target solids, and those anywhere in the document.
\<close>

definition solid_rings :: "element \<Rightarrow> element list" where
  "solid_rings d =
     concat (map (\<lambda>s. findall_descendants s (qname GML_NS ''LinearRing''))
                 (findall_descendants d (qname BLDG_NS ''lod1Solid'')))"

definition all_rings :: "element \<Rightarrow> element list" where
  "all_rings d = findall_descendants d (qname GML_NS ''LinearRing'')"

section \<open>Projection\<close>

definition degrees_to_meters_converter :: "pyfloat \<Rightarrow> error + pyfloat \<times> pyfloat" where
  "degrees_to_meters_converter lat_deg =
     (let lat_rad = radians lat_deg in
      case py_cos (py_mul (Fin 2) lat_rad) of Inl e \<Rightarrow> Inl e | Inr c2 \<Rightarrow>
      case py_cos (py_mul (Fin 4) lat_rad) of Inl e \<Rightarrow> Inl e | Inr c4 \<Rightarrow>
      let meters_per_degree_lat =
            py_add (py_sub (round_double 111132.92) (py_mul (round_double 559.82) c2))
                   (py_mul (round_double 1.175) c4) in
      case py_cos lat_rad of Inl e \<Rightarrow> Inl e | Inr c1 \<Rightarrow>
      case py_cos (py_mul (Fin 3) lat_rad) of Inl e \<Rightarrow> Inl e | Inr c3 \<Rightarrow>
      let meters_per_degree_lon =
            py_sub (py_mul (round_double 111412.84) c1) (py_mul (round_double 93.5) c3)
      in Inr (meters_per_degree_lat, meters_per_degree_lon))"

text \<open>\<^verbatim>\<open>for lat, lon, height in tri\<close> unpacks each vertex into exactly three values.\<close>

fun unpack3 :: "'a list \<Rightarrow> error + 'a \<times> 'a \<times> 'a" where
  "unpack3 [a, b, c] = Inr (a, b, c)"
| "unpack3 (a # b # c # d # ds) = Inl (ValueError UnpackTooMany)"
| "unpack3 xs = Inl (ValueError (UnpackNotEnough (length xs)))"

record box =
  min_x :: pyfloat
  min_y :: pyfloat
  min_z :: pyfloat
  max_x :: pyfloat
  max_y :: pyfloat
  max_z :: pyfloat

record bounds =
  bounds_min :: "pyfloat list"
  bounds_max :: "pyfloat list"

text \<open>The three assignments \<^verbatim>\<open>x = ...\<close>, \<^verbatim>\<open>z = ...\<close>, \<^verbatim>\<open>y = height\<close> of the inner loop.\<close>

definition project ::
  "pyfloat \<Rightarrow> pyfloat \<Rightarrow> pyfloat \<Rightarrow> pyfloat \<Rightarrow> pyfloat \<times> pyfloat \<times> pyfloat
     \<Rightarrow> pyfloat \<times> pyfloat \<times> pyfloat" where
  "project lat0 lon0 lat_scale lon_scale v =
     (case v of (lat, lon, height) \<Rightarrow>
        (py_mul (py_sub lon lon0) lon_scale,
         height,
         py_mul (py_neg (py_sub lat lat0)) lat_scale))"

definition grow :: "box \<Rightarrow> pyfloat \<times> pyfloat \<times> pyfloat \<Rightarrow> box" where
  "grow b p =
     (case p of (x, y, z) \<Rightarrow>
        \<lparr>min_x = py_min (min_x b) x, min_y = py_min (min_y b) y, min_z = py_min (min_z b) z,
         max_x = py_max (max_x b) x, max_y = py_max (max_y b) y, max_z = py_max (max_z b) z\<rparr>)"

fun convert_vertices ::
  "pyfloat \<Rightarrow> pyfloat \<Rightarrow> pyfloat \<Rightarrow> pyfloat \<Rightarrow> vertex list \<Rightarrow> box \<Rightarrow> pyfloat list
     \<Rightarrow> error + box \<times> pyfloat list" where
  "convert_vertices lat0 lon0 lat_scale lon_scale [] b flat = Inr (b, flat)"
| "convert_vertices lat0 lon0 lat_scale lon_scale (v # vs) b flat =
     (case unpack3 v of
        Inl e \<Rightarrow> Inl e
      | Inr u \<Rightarrow>
          (case project lat0 lon0 lat_scale lon_scale u of (x, y, z) \<Rightarrow>
             convert_vertices lat0 lon0 lat_scale lon_scale vs (grow b (x, y, z))
               (flat @ [x, y, z])))"

fun convert_triangles ::
  "pyfloat \<Rightarrow> pyfloat \<Rightarrow> pyfloat \<Rightarrow> pyfloat \<Rightarrow> triangle list \<Rightarrow> box \<Rightarrow> pyfloat list list
     \<Rightarrow> error + box \<times> pyfloat list list" where
  "convert_triangles lat0 lon0 lat_scale lon_scale [] b converted = Inr (b, converted)"
| "convert_triangles lat0 lon0 lat_scale lon_scale (tri # tris) b converted =
     (case convert_vertices lat0 lon0 lat_scale lon_scale tri b [] of
        Inl e \<Rightarrow> Inl e
      | Inr (b', flat) \<Rightarrow>
          convert_triangles lat0 lon0 lat_scale lon_scale tris b' (converted @ [flat]))"

definition empty_box :: box where
  "empty_box = \<lparr>min_x = PInf, min_y = PInf, min_z = PInf,
                max_x = NInf, max_y = NInf, max_z = NInf\<rparr>"

definition convert_coordinates ::
  "triangle list \<Rightarrow> pyfloat \<Rightarrow> pyfloat \<Rightarrow> error + pyfloat list list \<times> bounds" where
  "convert_coordinates triangles lat0 lon0 =
     (case degrees_to_meters_converter lat0 of
        Inl e \<Rightarrow> Inl e
      | Inr (lat_scale, lon_scale) \<Rightarrow>
          (case convert_triangles lat0 lon0 lat_scale lon_scale triangles empty_box [] of
             Inl e \<Rightarrow> Inl e
           | Inr (b, converted) \<Rightarrow>
               Inr (converted,
                    \<lparr>bounds_min = [min_x b, min_y b, min_z b],
                     bounds_max = [max_x b, max_y b, max_z b]\<rparr>)))"

text \<open>
  For the statements about the projection: a vertex of three components as a triple, the
  three numbers a projected vertex adds to \<^verbatim>\<open>flat\<close>, and the projected vertices of a list
  of triangles, in the order the loops visit them.
\<close>

definition triple :: "vertex \<Rightarrow> pyfloat \<times> pyfloat \<times> pyfloat" where
  "triple v = (v ! 0, v ! 1, v ! 2)"

definition flat3 :: "pyfloat \<times> pyfloat \<times> pyfloat \<Rightarrow> pyfloat list" where
  "flat3 p = (case p of (x, y, z) \<Rightarrow> [x, y, z])"

definition projected ::
  "triangle list \<Rightarrow> pyfloat \<Rightarrow> pyfloat \<Rightarrow> pyfloat \<Rightarrow> pyfloat
     \<Rightarrow> (pyfloat \<times> pyfloat \<times> pyfloat) list" where
  "projected tris lat0 lon0 lat_scale lon_scale =
     map (\<lambda>v. project lat0 lon0 lat_scale lon_scale (triple v)) (concat tris)"

section \<open>The run\<close>

text \<open>
  An input file is its name and the root of its parsed document; \<open>main\<close> receives the
  sorted result of the directory search. The output is the value handed to \<^verbatim>\<open>json.dump\<close>.
\<close>

record gml_file =
  name :: string
  doc_root :: element

record mesh_document =
  origin_lat :: pyfloat
  origin_lon :: pyfloat
  triangles :: "pyfloat list list"
  doc_bounds :: bounds
  source_files :: "string list"
  lat_scale_m_per_deg :: pyfloat
  lon_scale_m_per_deg :: pyfloat

text \<open>
  The part of the file system the run changes: the directories it has created and the
  files it has opened for writing, each empty or holding a document.
\<close>

type_synonym path = "string list"

datatype file_state = Empty | Json mesh_document

record world =
  made_dirs :: "path set"
  files :: "path \<rightharpoonup> file_state"

text \<open>\<^verbatim>\<open>xs[:k]\<close> for an integer \<open>k\<close>, and the cut that \<^verbatim>\<open>--limit\<close> makes.\<close>

definition slice_to :: "'a list \<Rightarrow> int \<Rightarrow> 'a list" where
  "slice_to xs k = (if 0 \<le> k then take (nat k) xs else take (length xs - nat (- k)) xs)"

definition limit_files :: "gml_file list \<Rightarrow> int \<Rightarrow> gml_file list" where
  "limit_files gml_files limit = (if limit \<noteq> 0 then slice_to gml_files limit else gml_files)"

text \<open>The sampling loops of \<open>main\<close> and its loop over the files.\<close>

fun sample_vertices ::
  "vertex list \<Rightarrow> pyfloat list \<Rightarrow> pyfloat list \<Rightarrow> error + pyfloat list \<times> pyfloat list" where
  "sample_vertices [] lats lons = Inr (lats, lons)"
| "sample_vertices (v # vs) lats lons =
     (case unpack3 v of
        Inl e \<Rightarrow> Inl e
      | Inr (lat, lon, _) \<Rightarrow> sample_vertices vs (lats @ [lat]) (lons @ [lon]))"

fun sample_triangles ::
  "triangle list \<Rightarrow> pyfloat list \<Rightarrow> pyfloat list \<Rightarrow> error + pyfloat list \<times> pyfloat list" where
  "sample_triangles [] lats lons = Inr (lats, lons)"
| "sample_triangles (tri # tris) lats lons =
     (case sample_vertices tri lats lons of
        Inl e \<Rightarrow> Inl e
      | Inr (lats', lons') \<Rightarrow> sample_triangles tris lats' lons')"

fun collect ::
  "gml_file list \<Rightarrow> triangle list \<Rightarrow> pyfloat list \<Rightarrow> pyfloat list
     \<Rightarrow> error + triangle list \<times> pyfloat list \<times> pyfloat list" where
  "collect [] all_triangles lats lons = Inr (all_triangles, lats, lons)"
| "collect (gml_file # rest) all_triangles lats lons =
     (case extract_triangles (doc_root gml_file) of
        Inl e \<Rightarrow> Inl e
      | Inr tris \<Rightarrow>
          if tris = [] then collect rest all_triangles lats lons
          else (case sample_triangles tris lats lons of
                  Inl e \<Rightarrow> Inl e
                | Inr (lats', lons') \<Rightarrow> collect rest (all_triangles @ tris) lats' lons'))"

definition no_triangles_message :: string where
  "no_triangles_message = ''No triangles could be extracted from the provided GML files''"

text \<open>
  \<open>main w src_files dest limit\<close>: the run on the sorted \<^verbatim>\<open>*.gml\<close> files of the source
  directory, from the world \<open>w\<close>. It returns the world it leaves and the exception that
  ended it, if any. The directory is made and the file opened before the document is built.
\<close>

definition main :: "world \<Rightarrow> gml_file list \<Rightarrow> path \<Rightarrow> int \<Rightarrow> world \<times> error option" where
  "main w src_files dest limit =
     (let gml_files = limit_files src_files limit in
      case collect gml_files [] [] [] of
        Inl e \<Rightarrow> (w, Some e)
      | Inr (all_triangles, lats, lons) \<Rightarrow>
          if all_triangles = [] then (w, Some (SystemExit no_triangles_message))
          else
            case py_truediv (py_sum lats) (length lats) of Inl e \<Rightarrow> (w, Some e) | Inr lat0 \<Rightarrow>
            case py_truediv (py_sum lons) (length lons) of Inl e \<Rightarrow> (w, Some e) | Inr lon0 \<Rightarrow>
            case convert_coordinates all_triangles lat0 lon0 of
              Inl e \<Rightarrow> (w, Some e)
            | Inr (converted, bnds) \<Rightarrow>
                let w1 = w\<lparr>made_dirs := insert (butlast dest) (made_dirs w)\<rparr>;
                    w2 = w1\<lparr>files := (files w1)(dest \<mapsto> Empty)\<rparr> in
                case degrees_to_meters_converter lat0 of Inl e \<Rightarrow> (w2, Some e) | Inr (s1, _) \<Rightarrow>
                case degrees_to_meters_converter lat0 of Inl e \<Rightarrow> (w2, Some e) | Inr (_, s2) \<Rightarrow>
                  (w2\<lparr>files := (files w2)(dest \<mapsto> Json
                       \<lparr>origin_lat = lat0, origin_lon = lon0, triangles = converted,
                        doc_bounds = bnds, source_files = map name gml_files,
                        lat_scale_m_per_deg = s1, lon_scale_m_per_deg = s2\<rparr>)\<rparr>,
                   None))"

section \<open>Example documents\<close>

text \<open>
  A ring with the given coordinate list; a document whose only solid holds the given rings;
  a document whose rings lie outside any solid; a document with rings of both kinds; a file;
  the world before the run.
\<close>

definition linear_ring :: "string \<Rightarrow> element" where
  "linear_ring txt =
     Element (qname GML_NS ''LinearRing'') None [Element (qname GML_NS ''posList'') (Some txt) []]"

definition solid_doc :: "element list \<Rightarrow> element" where
  "solid_doc rings =
     Element ''CityModel'' None [Element (qname BLDG_NS ''lod1Solid'') None rings]"

definition plain_doc :: "element list \<Rightarrow> element" where
  "plain_doc rings = Element ''CityModel'' None [Element ''surface'' None rings]"

definition mixed_doc :: "element list \<Rightarrow> element list \<Rightarrow> element" where
  "mixed_doc rings others =
     Element ''CityModel'' None
       [Element (qname BLDG_NS ''lod1Solid'') None rings, Element ''surface'' None others]"

definition gml :: "string \<Rightarrow> element \<Rightarrow> gml_file" where
  "gml n d = \<lparr>name = n, doc_root = d\<rparr>"

definition world0 :: world where
  "world0 = \<lparr>made_dirs = {}, files = Map.empty\<rparr>"

section \<open>Rounding to the nearest double\<close>

lemma rne_of_int [simp]: "rne (of_int m) = m"
  by (simp add: rne_def)

lemma rne_near:
  assumes "\<bar>y - of_int m\<bar> < 1 / 2"
  shows "rne y = m"
proof (cases "of_int m \<le> y")
  case True
  with assms have "\<lfloor>y\<rfloor> = m" by (intro floor_unique) auto
  with assms True show ?thesis by (simp add: rne_def)
next
  case False
  with assms have f: "\<lfloor>y\<rfloor> = m - 1" by (intro floor_unique) auto
  with assms False show ?thesis by (simp add: rne_def Let_def)
qed

lemma rne_le: "y \<le> of_int N \<Longrightarrow> rne y \<le> N"
proof -
  assume a: "y \<le> of_int N"
  then have f: "\<lfloor>y\<rfloor> \<le> N" by (simp add: floor_le_iff)
  show ?thesis
  proof (cases "\<lfloor>y\<rfloor> = N")
    case True
    with a have "y = of_int N" by linarith
    then show ?thesis by simp
  next
    case False
    with f have "\<lfloor>y\<rfloor> + 1 \<le> N" by simp
    then show ?thesis by (auto simp: rne_def Let_def)
  qed
qed

lemma rne_ge: "of_int N \<le> y \<Longrightarrow> N \<le> rne y"
proof -
  assume "of_int N \<le> y"
  then have "N \<le> \<lfloor>y\<rfloor>" by (simp add: le_floor_iff)
  then show ?thesis by (auto simp: rne_def Let_def)
qed

lemma floor_log2_eq:
  assumes "2 powi e \<le> a" and "a < 2 powi (e + 1)"
  shows "\<lfloor>log 2 a\<rfloor> = e"
proof -
  have pos: "0 < a" using assms(1) by (smt (verit) zero_less_power_int)
  have p1: "(2::real) powr real_of_int e = 2 powi e"
    by (rule powr_real_of_int') simp_all
  have p2: "(2::real) powr real_of_int (e + 1) = 2 powi (e + 1)"
    by (rule powr_real_of_int') simp_all
  have "(2::real) powr real_of_int e \<le> a \<and> a < 2 powr real_of_int (e + 1)"
    using assms unfolding p1 p2 by simp
  with pos show ?thesis
    using floor_log_eq_powr_iff [of a 2 e] by simp
qed

lemma ulp_exp_eq:
  assumes "2 powi e \<le> \<bar>x\<bar>" and "\<bar>x\<bar> < 2 powi (e + 1)"
  shows "ulp_exp x = max (- 1074) (e - 52)"
  using floor_log2_eq [OF assms] by (simp add: ulp_exp_def)

lemma round_double_near:
  assumes "2 powi e \<le> \<bar>x\<bar>" and "\<bar>x\<bar> < 2 powi (e + 1)"
    and "u = max (- 1074) (e - 52)"
    and "\<bar>x / 2 powi u - of_int m\<bar> < 1 / 2"
    and "\<bar>of_int m * 2 powi u\<bar> < (2::real) powi 1024"
  shows "round_double x = Fin (of_int m * 2 powi u)"
proof -
  have "x \<noteq> 0" using assms(1) by (smt (verit) zero_less_power_int)
  moreover have "ulp_exp x = u" using ulp_exp_eq [OF assms(1,2)] assms(3) by simp
  moreover have "rne (x / 2 powi u) = m" using assms(4) by (rule rne_near)
  ultimately show ?thesis using assms(5) by (simp add: round_double_def Let_def)
qed

lemma exp_bracket:
  assumes "x \<noteq> 0"
  shows "\<exists>j. 2 powi j \<le> \<bar>x\<bar> \<and> \<bar>x\<bar> < 2 powi (j + 1) \<and> ulp_exp x = max (- 1074) (j - 52)"
proof -
  define j where "j = \<lfloor>log 2 \<bar>x\<bar>\<rfloor>"
  have pos: "0 < \<bar>x\<bar>" using assms by simp
  have p1: "(2::real) powr real_of_int j = 2 powi j"
    by (rule powr_real_of_int') simp_all
  have p2: "(2::real) powr real_of_int (j + 1) = 2 powi (j + 1)"
    by (rule powr_real_of_int') simp_all
  from pos have "(2::real) powr real_of_int j \<le> \<bar>x\<bar> \<and> \<bar>x\<bar> < 2 powr real_of_int (j + 1)"
    using floor_log_eq_powr_iff [of "\<bar>x\<bar>" 2 j] by (simp add: j_def)
  then have "2 powi j \<le> \<bar>x\<bar> \<and> \<bar>x\<bar> < 2 powi (j + 1)"
    unfolding p1 p2 .
  moreover have "ulp_exp x = max (- 1074) (j - 52)"
    by (simp add: ulp_exp_def j_def)
  ultimately show ?thesis by blast
qed

lemma powi2_less_cancel: "(2::real) powi a < 2 powi b \<Longrightarrow> a < b"
  by (rule ccontr) (simp add: not_less power_int_increasing leD)

lemma powi2_le: "a \<le> b \<Longrightarrow> (2::real) powi a \<le> 2 powi b"
  by (rule power_int_increasing) simp_all

lemma powi2_split: "(2::real) powi (a + b) = 2 powi a * 2 powi b"
  by (rule power_int_add) simp

lemma powi2_nat: "0 \<le> d \<Longrightarrow> (2::real) powi d = of_int (2 ^ nat d)"
  by (simp add: power_int_def)

lemma powi2_quot: "u \<le> k \<Longrightarrow> (2::real) powi k / 2 powi u = of_int (2 ^ nat (k - u))"
proof -
  assume "u \<le> k"
  then have "(2::real) powi k = 2 powi (k - u) * 2 powi u"
    using powi2_split [of "k - u" u] by simp
  moreover have "(2::real) powi (k - u) = of_int (2 ^ nat (k - u))"
    using \<open>u \<le> k\<close> by (simp add: powi2_nat)
  ultimately show ?thesis by simp
qed

lemma round_double_bounded:
  assumes "\<bar>x\<bar> \<le> 2 powi k" and "- 1074 \<le> k" and "k \<le> 1023"
  shows "\<exists>r. round_double x = Fin r \<and> \<bar>r\<bar> \<le> 2 powi k"
proof (cases "x = 0")
  case True
  then show ?thesis by (simp add: round_double_def)
next
  case False
  from exp_bracket [OF False] obtain j where
    j: "2 powi j \<le> \<bar>x\<bar>" "\<bar>x\<bar> < 2 powi (j + 1)" and u: "ulp_exp x = max (- 1074) (j - 52)"
    by blast
  define u where "u = ulp_exp x"
  define N :: int where "N = 2 ^ nat (k - u)"
  have "(2::real) powi k < 2 powi (k + 1)"
    by (intro power_int_strict_increasing) simp_all
  with j(1) assms(1) have "(2::real) powi j < 2 powi (k + 1)"
    by linarith
  then have "j < k + 1" by (rule powi2_less_cancel)
  with assms(2) have uk: "u \<le> k" by (simp add: u_def u)
  have upos: "0 < (2::real) powi u" by simp
  have q: "(2::real) powi k / 2 powi u = of_int N"
    using powi2_quot [OF uk] by (simp add: N_def)
  have "x / 2 powi u \<le> 2 powi k / 2 powi u"
    using assms(1) upos by (simp add: divide_right_mono)
  then have le: "rne (x / 2 powi u) \<le> N"
    unfolding q by (rule rne_le)
  have "- (2 powi k / 2 powi u) \<le> x / 2 powi u"
    using assms(1) upos by (simp add: field_simps)
  then have "of_int (- N) \<le> x / 2 powi u"
    unfolding q by simp
  then have ge: "- N \<le> rne (x / 2 powi u)"
    by (rule rne_ge)
  from le ge have "\<bar>rne (x / 2 powi u)\<bar> \<le> N" by simp
  then have "\<bar>real_of_int (rne (x / 2 powi u))\<bar> \<le> of_int N"
    by (metis of_int_abs of_int_le_iff)
  then have "\<bar>real_of_int (rne (x / 2 powi u)) * 2 powi u\<bar> \<le> of_int N * 2 powi u"
    using upos by (simp add: abs_mult)
  also have "of_int N * 2 powi u = (2::real) powi k"
    using q upos by (simp add: field_simps)
  finally have b: "\<bar>real_of_int (rne (x / 2 powi u)) * 2 powi u\<bar> \<le> 2 powi k" .
  have "(2::real) powi k < 2 powi 1024"
    using assms(3) by (intro power_int_strict_increasing) simp_all
  with b have "\<not> 2 powi 1024 \<le> \<bar>real_of_int (rne (x / 2 powi u)) * 2 powi u\<bar>"
    by simp
  with False b show ?thesis
    by (simp add: round_double_def Let_def u_def)
qed

lemma round_double_overflow:
  assumes "2 powi 1024 \<le> \<bar>x\<bar>"
  shows "round_double x = (if 0 < x then PInf else NInf)"
proof -
  have nz: "x \<noteq> 0" using assms by (smt (verit) zero_less_power_int)
  from exp_bracket [OF nz] obtain j where
    j: "2 powi j \<le> \<bar>x\<bar>" "\<bar>x\<bar> < 2 powi (j + 1)" and u: "ulp_exp x = max (- 1074) (j - 52)"
    by blast
  define u where "u = ulp_exp x"
  from assms j(2) have "(2::real) powi 1024 < 2 powi (j + 1)" by simp
  then have j1024: "1024 < j + 1" by (rule powi2_less_cancel)
  then have uj: "u = j - 52" by (simp add: u_def u)
  have upos: "0 < (2::real) powi u" by simp
  have q: "(2::real) powi j / 2 powi u = of_int (2 ^ 52)"
    using powi2_quot [of u j] uj by simp
  have big: "of_int (2 ^ 52) \<le> \<bar>x\<bar> / 2 powi u"
    using j(1) upos unfolding q [symmetric] by (simp add: divide_right_mono)
  have r: "(2::int) ^ 52 \<le> \<bar>rne (x / 2 powi u)\<bar>"
  proof (cases "0 < x")
    case True
    with big have "of_int (2 ^ 52) \<le> x / 2 powi u" by simp
    then have "2 ^ 52 \<le> rne (x / 2 powi u)" by (rule rne_ge)
    then show ?thesis by simp
  next
    case False
    with big have "x / 2 powi u \<le> of_int (- (2 ^ 52))"
      by (simp add: field_simps)
    then have "rne (x / 2 powi u) \<le> - (2 ^ 52)" by (rule rne_le)
    then show ?thesis by simp
  qed
  then have "real_of_int (2 ^ 52) \<le> \<bar>real_of_int (rne (x / 2 powi u))\<bar>"
    by (metis of_int_abs of_int_le_iff)
  then have "real_of_int (2 ^ 52) * 2 powi u \<le> \<bar>real_of_int (rne (x / 2 powi u)) * 2 powi u\<bar>"
    using upos by (simp add: abs_mult)
  moreover have "real_of_int (2 ^ 52) * 2 powi u = 2 powi j"
    using q upos by (simp add: field_simps)
  moreover have "(2::real) powi 1024 \<le> 2 powi j"
    using j1024 by (intro powi2_le) simp
  ultimately have "2 powi 1024 \<le> \<bar>real_of_int (rne (x / 2 powi u)) * 2 powi u\<bar>"
    by simp
  with nz show ?thesis
    by (simp add: round_double_def Let_def u_def)
qed

lemma round_double_exact:
  assumes "is_double x"
  shows "round_double x = Fin x"
proof (cases "x = 0")
  case True
  then show ?thesis by (simp add: round_double_def)
next
  case False
  from assms obtain m e where
    x: "x = of_int m * 2 powi e" and m: "\<bar>m\<bar> < 2 ^ 53" and e: "- 1074 \<le> e" "e \<le> 971"
    by (auto simp: is_double_def)
  from exp_bracket [OF False] obtain j where
    j: "2 powi j \<le> \<bar>x\<bar>" "\<bar>x\<bar> < 2 powi (j + 1)" and u: "ulp_exp x = max (- 1074) (j - 52)"
    by blast
  define u where "u = ulp_exp x"
  have "\<bar>real_of_int m\<bar> < 2 ^ 53"
    using m by (metis of_int_abs of_int_less_iff of_int_numeral of_int_power)
  then have "\<bar>x\<bar> < 2 ^ 53 * 2 powi e"
    by (simp add: x abs_mult)
  also have "\<dots> = 2 powi (e + 53)"
    using powi2_split [of e 53] by simp
  finally have xb: "\<bar>x\<bar> < 2 powi (e + 53)" .
  with j(1) have "(2::real) powi j < 2 powi (e + 53)" by simp
  then have "j < e + 53" by (rule powi2_less_cancel)
  with e(1) have ue: "u \<le> e" by (simp add: u_def u)
  have "2 powi e / 2 powi u = real_of_int (2 ^ nat (e - u))"
    by (rule powi2_quot [OF ue])
  then have "real_of_int m * (2 powi e / 2 powi u) = real_of_int m * real_of_int (2 ^ nat (e - u))"
    by simp
  then have "x / 2 powi u = of_int (m * 2 ^ nat (e - u))"
    by (simp add: x)
  then have "rne (x / 2 powi u) = m * 2 ^ nat (e - u)"
    by (simp only: rne_of_int)
  then have "of_int (rne (x / 2 powi u)) * 2 powi u = x / 2 powi u * 2 powi u"
    using \<open>x / 2 powi u = of_int (m * 2 ^ nat (e - u))\<close> by simp
  then have r: "of_int (rne (x / 2 powi u)) * 2 powi u = x"
    by simp
  have "(2::real) powi (e + 53) \<le> 2 powi 1024"
    using e(2) by (intro powi2_le) simp
  with xb have "\<not> 2 powi 1024 \<le> \<bar>x\<bar>" by simp
  with False r show ?thesis
    by (simp add: round_double_def Let_def u_def)
qed

lemma is_double_of_int: "\<bar>k\<bar> < 2 ^ 53 \<Longrightarrow> is_double (of_int k)"
  unfolding is_double_def by (rule exI [of _ k], rule exI [of _ 0]) simp

lemma round_double_of_int: "\<bar>k\<bar> < 2 ^ 53 \<Longrightarrow> round_double (of_int k) = Fin (of_int k)"
  by (rule round_double_exact) (rule is_double_of_int)

lemma round_double_0 [simp]: "round_double 0 = Fin 0"
  by (simp add: round_double_def)

lemma round_double_1 [simp]: "round_double 1 = Fin 1"
  using round_double_of_int [of 1] by simp

lemma round_double_numeral [simp]:
  "(numeral n :: int) < 2 ^ 53 \<Longrightarrow> round_double (numeral n) = Fin (numeral n)"
  using round_double_of_int [of "numeral n"] by simp

lemma round_double_neg_numeral [simp]:
  "(numeral n :: int) < 2 ^ 53 \<Longrightarrow> round_double (- numeral n) = Fin (- numeral n)"
  using round_double_of_int [of "- numeral n"] by simp

section \<open>The doubles of the examples\<close>

lemma rd_1: "round_double (2778323 / 25) = Fin (7636996110543749 / 68719476736)"
proof -
  have "round_double (2778323 / 25) = Fin (real_of_int (7636996110543749) * 2 powi (-36))"
    by (rule round_double_near [where e = "16"]) (simp_all add: power_int_minus)
  then show ?thesis
    by (simp add: power_int_minus)
qed

lemma rd_2: "round_double (27991 / 50) = Fin (4924228795692483 / 8796093022208)"
proof -
  have "round_double (27991 / 50) = Fin (real_of_int (4924228795692483) * 2 powi (-43))"
    by (rule round_double_near [where e = "9"]) (simp_all add: power_int_minus)
  then show ?thesis
    by (simp add: power_int_minus)
qed

lemma rd_3: "round_double (47 / 40) = Fin (5291729562160333 / 4503599627370496)"
proof -
  have "round_double (47 / 40) = Fin (real_of_int (5291729562160333) * 2 powi (-52))"
    by (rule round_double_near [where e = "0"]) (simp_all add: power_int_minus)
  then show ?thesis
    by (simp add: power_int_minus)
qed

lemma rd_4: "round_double (2785321 / 25) = Fin (3828116033235845 / 34359738368)"
proof -
  have "round_double (2785321 / 25) = Fin (real_of_int (7656232066471690) * 2 powi (-36))"
    by (rule round_double_near [where e = "16"]) (simp_all add: power_int_minus)
  then show ?thesis
    by (simp add: power_int_minus)
qed

lemma rd_5: "round_double (187 / 2) = Fin (187 / 2)"
proof -
  have "round_double (187 / 2) = Fin (real_of_int (6579477580611584) * 2 powi (-46))"
    by (rule round_double_near [where e = "6"]) (simp_all add: power_int_minus)
  then show ?thesis
    by (simp add: power_int_minus)
qed

lemma rd_6: "round_double (176855943800711 / 10133099161583616) = Fin (5030569068109113 / 288230376151711744)"
proof -
  have "round_double (176855943800711 / 10133099161583616) = Fin (real_of_int (5030569068109113) * 2 powi (-58))"
    by (rule round_double_near [where e = "-6"]) (simp_all add: power_int_minus)
  then show ?thesis
    by (simp add: power_int_minus)
qed

lemma rd_7: "round_double (4924228795692483 / 8796093022208) = Fin (4924228795692483 / 8796093022208)"
proof -
  have "round_double (4924228795692483 / 8796093022208) = Fin (real_of_int (4924228795692483) * 2 powi (-43))"
    by (rule round_double_near [where e = "9"]) (simp_all add: power_int_minus)
  then show ?thesis
    by (simp add: power_int_minus)
qed

lemma rd_8: "round_double (972611273353907389 / 8796093022208) = Fin (7598525573077401 / 68719476736)"
proof -
  have "round_double (972611273353907389 / 8796093022208) = Fin (real_of_int (7598525573077401) * 2 powi (-36))"
    by (rule round_double_near [where e = "16"]) (simp_all add: power_int_minus)
  then show ?thesis
    by (simp add: power_int_minus)
qed

lemma rd_9: "round_double (5291729562160333 / 4503599627370496) = Fin (5291729562160333 / 4503599627370496)"
proof -
  have "round_double (5291729562160333 / 4503599627370496) = Fin (real_of_int (5291729562160333) * 2 powi (-52))"
    by (rule round_double_near [where e = "0"]) (simp_all add: power_int_minus)
  then show ?thesis
    by (simp add: power_int_minus)
qed

lemma rd_10: "round_double (497982263686762712269 / 4503599627370496) = Fin (3799303159231283 / 34359738368)"
proof -
  have "round_double (497982263686762712269 / 4503599627370496) = Fin (real_of_int (7598606318462566) * 2 powi (-36))"
    by (rule round_double_near [where e = "16"]) (simp_all add: power_int_minus)
  then show ?thesis
    by (simp add: power_int_minus)
qed

lemma rd_11: "round_double (3828116033235845 / 34359738368) = Fin (3828116033235845 / 34359738368)"
proof -
  have "round_double (3828116033235845 / 34359738368) = Fin (real_of_int (7656232066471690) * 2 powi (-36))"
    by (rule round_double_near [where e = "16"]) (simp_all add: power_int_minus)
  then show ?thesis
    by (simp add: power_int_minus)
qed

lemma rd_12: "round_double (3824903397698437 / 34359738368) = Fin (3824903397698437 / 34359738368)"
proof -
  have "round_double (3824903397698437 / 34359738368) = Fin (real_of_int (7649806795396874) * 2 powi (-36))"
    by (rule round_double_near [where e = "16"]) (simp_all add: power_int_minus)
  then show ?thesis
    by (simp add: power_int_minus)
qed

lemma rd_13: "round_double (2 / 3) = Fin (6004799503160661 / 9007199254740992)"
proof -
  have "round_double (2 / 3) = Fin (real_of_int (6004799503160661) * 2 powi (-53))"
    by (rule round_double_near [where e = "-1"]) (simp_all add: power_int_minus)
  then show ?thesis
    by (simp add: power_int_minus)
qed

lemma rd_14: "round_double (- (6004799503160661 / 9007199254740992)) = Fin (- (6004799503160661 / 9007199254740992))"
proof -
  have "round_double (- (6004799503160661 / 9007199254740992)) = Fin (real_of_int (-6004799503160661) * 2 powi (-53))"
    by (rule round_double_near [where e = "-1"]) (simp_all add: power_int_minus)
  then show ?thesis
    by (simp add: power_int_minus)
qed

lemma rd_15: "round_double (- (22967778022137098646254439586857 / 309485009821345068724781056)) = Fin (- (5099871196931249 / 68719476736))"
proof -
  have "round_double (- (22967778022137098646254439586857 / 309485009821345068724781056)) = Fin (real_of_int (-5099871196931249) * 2 powi (-36))"
    by (rule round_double_near [where e = "16"]) (simp_all add: power_int_minus)
  then show ?thesis
    by (simp add: power_int_minus)
qed

lemma rd_16: "round_double (3002399751580331 / 9007199254740992) = Fin (3002399751580331 / 9007199254740992)"
proof -
  have "round_double (3002399751580331 / 9007199254740992) = Fin (real_of_int (6004799503160662) * 2 powi (-54))"
    by (rule round_double_near [where e = "-2"]) (simp_all add: power_int_minus)
  then show ?thesis
    by (simp add: power_int_minus)
qed

lemma rd_17: "round_double (11483889011068551235578918642647 / 309485009821345068724781056) = Fin (2549935598465625 / 68719476736)"
proof -
  have "round_double (11483889011068551235578918642647 / 309485009821345068724781056) = Fin (real_of_int (5099871196931250) * 2 powi (-37))"
    by (rule round_double_near [where e = "15"]) (simp_all add: power_int_minus)
  then show ?thesis
    by (simp add: power_int_minus)
qed

lemma rd_18: "round_double (1 / 10) = Fin (3602879701896397 / 36028797018963968)"
proof -
  have "round_double (1 / 10) = Fin (real_of_int (7205759403792794) * 2 powi (-56))"
    by (rule round_double_near [where e = "-4"]) (simp_all add: power_int_minus)
  then show ?thesis
    by (simp add: power_int_minus)
qed

lemma rd_19: "round_double (10000000000000001 / 100000000000000000) = Fin (3602879701896397 / 36028797018963968)"
proof -
  have "round_double (10000000000000001 / 100000000000000000) = Fin (real_of_int (7205759403792794) * 2 powi (-56))"
    by (rule round_double_near [where e = "-4"]) (simp_all add: power_int_minus)
  then show ?thesis
    by (simp add: power_int_minus)
qed

lemma rd_20: "round_double (100000000000000000000000000000000000000000000000000000000000000000000000000000000000000000000000000000000000000000000000000000000000000000000000000000000000000000000000000000000000000000000000000000000000000000000000000000000000000000000000000000000000000000000000000000000000000000000000000000000000000000000) = Fin (100000000000000001097906362944045541740492309677311846336810682903157585404911491537163328978494688899061249669721172515611590283743140088328307009198146046031271664502933027185697489699588559043338384466165001178426897626212945177628091195786707458122783970171784415105291802893207873272974885715430223118336)"
proof -
  have "round_double (100000000000000000000000000000000000000000000000000000000000000000000000000000000000000000000000000000000000000000000000000000000000000000000000000000000000000000000000000000000000000000000000000000000000000000000000000000000000000000000000000000000000000000000000000000000000000000000000000000000000000000000) = Fin (real_of_int (5010420900022432) * 2 powi (971))"
    by (rule round_double_near [where e = "1023"]) (simp_all add: power_int_minus)
  then show ?thesis
    by (simp add: power_int_minus)
qed

lemma rd_21: "round_double (100000000000000001097906362944045541740492309677311846336810682903157585404911491537163328978494688899061249669721172515611590283743140088328307009198146046031271664502933027185697489699588559043338384466165001178426897626212945177628091195786707458122783970171784415105291802893207873272974885715430223118336) = Fin (100000000000000001097906362944045541740492309677311846336810682903157585404911491537163328978494688899061249669721172515611590283743140088328307009198146046031271664502933027185697489699588559043338384466165001178426897626212945177628091195786707458122783970171784415105291802893207873272974885715430223118336)"
proof -
  have "round_double (100000000000000001097906362944045541740492309677311846336810682903157585404911491537163328978494688899061249669721172515611590283743140088328307009198146046031271664502933027185697489699588559043338384466165001178426897626212945177628091195786707458122783970171784415105291802893207873272974885715430223118336) = Fin (real_of_int (5010420900022432) * 2 powi (971))"
    by (rule round_double_near [where e = "1023"]) (simp_all add: power_int_minus)
  then show ?thesis
    by (simp add: power_int_minus)
qed

lemma rd_over_1: "round_double (200000000000000002195812725888091083480984619354623692673621365806315170809822983074326657956989377798122499339442345031223180567486280176656614018396292092062543329005866054371394979399177118086676768932330002356853795252425890355256182391573414916245567940343568830210583605786415746545949771430860446236672) = PInf"
  by (simp add: round_double_overflow)

lemma rd_22: "round_double (1 / 1000000000000000000000000000000000000000000000000000000000000000000000000000000000000000000000000000000000000000000000000000000000000000000000000000000000000000000000000000000000000000000000000000000000000000000000000000000000000000000000000000000000000000000000000000000000000000000000000000000000000000000000000000000000000) = Fin (0)"
proof -
  have "round_double (1 / 1000000000000000000000000000000000000000000000000000000000000000000000000000000000000000000000000000000000000000000000000000000000000000000000000000000000000000000000000000000000000000000000000000000000000000000000000000000000000000000000000000000000000000000000000000000000000000000000000000000000000000000000000000000000000) = Fin (real_of_int (0) * 2 powi (-1074))"
    by (rule round_double_near [where e = "-1077"]) (simp_all add: power_int_minus)
  then show ?thesis
    by (simp add: power_int_minus)
qed

lemmas rd_examples = rd_1 rd_2 rd_3 rd_4 rd_5 rd_6 rd_7 rd_8 rd_9 rd_10 rd_11 rd_12 rd_13 rd_14 rd_15 rd_16 rd_17 rd_18 rd_19 rd_20 rd_21 rd_over_1

section \<open>Fan triangulation\<close>

lemma polygon_to_triangles_length:
  "length (polygon_to_triangles coords) = length coords - 2"
  by (auto simp: polygon_to_triangles_def)

lemma polygon_to_triangles_nth:
  assumes "1 \<le> i" and "i \<le> length coords - 2" and "3 \<le> length coords"
  shows "polygon_to_triangles coords ! (i - 1) = [coords ! 0, coords ! i, coords ! (i + 1)]"
proof -
  have "i - 1 < length [1..<length coords - 1]"
    using assms by simp
  then have "map (\<lambda>i. [coords ! 0, coords ! i, coords ! (i + 1)]) [1..<length coords - 1] ! (i - 1)
      = [coords ! 0, coords ! ([1..<length coords - 1] ! (i - 1)), coords ! (([1..<length coords - 1] ! (i - 1)) + 1)]"
    by (rule nth_map)
  moreover have "[1..<length coords - 1] ! (i - 1) = i"
    using assms by simp
  ultimately show ?thesis
    using assms by (simp add: polygon_to_triangles_def)
qed

text \<open>
  C4. A ring of fewer than three vertices gives no triangle. A ring of \<open>N \<ge> 3\<close> vertices
  gives exactly \<open>N - 2\<close> triangles, and for \<open>i\<close> from 1 to \<open>N - 2\<close> the \<open>i\<close>-th of them is
  \<open>(ring[0], ring[i], ring[i + 1])\<close>: every triangle starts with vertex 0.
\<close>

theorem polygon_to_triangles_fan:
  "(length ring < 3 \<longrightarrow> polygon_to_triangles ring = []) \<and>
   (3 \<le> length ring \<longrightarrow>
      length (polygon_to_triangles ring) = length ring - 2 \<and>
      (\<forall>i. 1 \<le> i \<and> i \<le> length ring - 2 \<longrightarrow>
         polygon_to_triangles ring ! (i - 1) = [ring ! 0, ring ! i, ring ! (i + 1)]) \<and>
      (\<forall>t \<in> set (polygon_to_triangles ring). hd t = ring ! 0))"
proof (intro conjI impI allI)
  assume "length ring < 3"
  then show "polygon_to_triangles ring = []"
    by (simp add: polygon_to_triangles_def)
next
  show "length (polygon_to_triangles ring) = length ring - 2"
    by (rule polygon_to_triangles_length)
next
  fix i
  assume "3 \<le> length ring" and "1 \<le> i \<and> i \<le> length ring - 2"
  then show "polygon_to_triangles ring ! (i - 1) = [ring ! 0, ring ! i, ring ! (i + 1)]"
    using polygon_to_triangles_nth [of i ring] by blast
next
  show "\<forall>t \<in> set (polygon_to_triangles ring). hd t = ring ! 0"
    by (auto simp: polygon_to_triangles_def)
qed

theorem polygon_to_triangles_fan_witness:
  "polygon_to_triangles [[Fin 0, Fin 0, Fin 0], [Fin 0, Fin 1, Fin 0]] = [] \<and>
   polygon_to_triangles [[Fin 0, Fin 0, Fin 0], [Fin 0, Fin 1, Fin 0], [Fin 1, Fin 1, Fin 10], [Fin 1, Fin 0, Fin 10]] =
     [[[Fin 0, Fin 0, Fin 0], [Fin 0, Fin 1, Fin 0], [Fin 1, Fin 1, Fin 10]],
      [[Fin 0, Fin 0, Fin 0], [Fin 1, Fin 1, Fin 10], [Fin 1, Fin 0, Fin 10]]]"
proof -
  let ?short = "[[Fin 0, Fin 0, Fin 0], [Fin 0, Fin 1, Fin 0]]"
  let ?sq = "[[Fin 0, Fin 0, Fin 0], [Fin 0, Fin 1, Fin 0], [Fin 1, Fin 1, Fin 10], [Fin 1, Fin 0, Fin 10]]"
  have short: "polygon_to_triangles ?short = []"
    using polygon_to_triangles_fan [of ?short] by simp
  have len: "length (polygon_to_triangles ?sq) = 2"
    using polygon_to_triangles_fan [of ?sq] by simp
  have nth: "\<forall>i. 1 \<le> i \<and> i \<le> 2 \<longrightarrow>
      polygon_to_triangles ?sq ! (i - 1) = [?sq ! 0, ?sq ! i, ?sq ! (i + 1)]"
    using polygon_to_triangles_fan [of ?sq] by simp
  have t0: "polygon_to_triangles ?sq ! 0 = [?sq ! 0, ?sq ! 1, ?sq ! 2]"
    using nth [rule_format, of 1] by simp
  have t1: "polygon_to_triangles ?sq ! 1 = [?sq ! 0, ?sq ! 2, ?sq ! 3]"
    using nth [rule_format, of 2] by (simp add: numeral_3_eq_3)
  have "polygon_to_triangles ?sq = [polygon_to_triangles ?sq ! 0, polygon_to_triangles ?sq ! 1]"
    using len by (auto simp: list_eq_iff_nth_eq less_Suc_eq numeral_2_eq_2)
  with short t0 t1 show ?thesis
    by simp
qed

section \<open>Chunks, tokens and the ring parser\<close>

lemma chunks_Nil [simp]: "chunks [] sz = []"
  by (simp add: chunks.simps)

lemma chunks_step: "0 < sz \<Longrightarrow> xs \<noteq> [] \<Longrightarrow> chunks xs sz = take sz xs # chunks (drop sz xs) sz"
  by (subst chunks.simps) simp

lemma chunks_Cons3 [simp]: "chunks (x # xs) 3 = take 3 (x # xs) # chunks (drop 3 (x # xs)) 3"
  by (rule chunks_step) simp_all

lemma chunks_eq_Nil: "0 < sz \<Longrightarrow> chunks xs sz = [] \<longleftrightarrow> xs = []"
  by (subst chunks.simps) simp

lemma concat_chunks: "0 < sz \<Longrightarrow> concat (chunks xs sz) = xs"
proof (induction xs sz rule: chunks.induct)
  case (1 seq sz)
  show ?case
  proof (cases "seq = []")
    case True then show ?thesis by simp
  next
    case False
    with 1 show ?thesis by (simp add: chunks_step)
  qed
qed

lemma chunks_butlast_full:
  "0 < sz \<Longrightarrow> c \<in> set (butlast (chunks xs sz)) \<Longrightarrow> length c = sz"
proof (induction xs sz rule: chunks.induct)
  case (1 seq sz)
  show ?case
  proof (cases "seq = []")
    case True with 1 show ?thesis by simp
  next
    case False
    show ?thesis
    proof (cases "drop sz seq = []")
      case True
      with 1 False show ?thesis by (simp add: chunks_step)
    next
      case d: False
      then have "chunks (drop sz seq) sz \<noteq> []"
        using 1(2) by (simp add: chunks_eq_Nil)
      with 1 False d show ?thesis
        by (auto simp: chunks_step)
    qed
  qed
qed

lemma chunks_last_length:
  "0 < sz \<Longrightarrow> xs \<noteq> [] \<Longrightarrow>
   length (last (chunks xs sz)) = (if sz dvd length xs then sz else length xs mod sz)"
proof (induction xs sz rule: chunks.induct)
  case (1 seq sz)
  show ?case
  proof (cases "drop sz seq = []")
    case True
    then have le: "length seq \<le> sz" by simp
    have "length seq \<noteq> 0" using 1(3) by simp
    with le have "(if sz dvd length seq then sz else length seq mod sz) = length seq"
    proof (cases "length seq = sz")
      case True then show ?thesis by simp
    next
      case False
      with le have "length seq < sz" by simp
      moreover from this \<open>length seq \<noteq> 0\<close> have "\<not> sz dvd length seq"
        by (auto dest: dvd_imp_le)
      ultimately show ?thesis by simp
    qed
    with 1 True le show ?thesis by (simp add: chunks_step)
  next
    case d: False
    then have ne: "chunks (drop sz seq) sz \<noteq> []"
      using 1(2) by (simp add: chunks_eq_Nil)
    have lt: "sz < length seq" using d by simp
    have "length (last (chunks (drop sz seq) sz)) =
      (if sz dvd length (drop sz seq) then sz else length (drop sz seq) mod sz)"
      using 1 d by simp
    moreover have "sz dvd (length seq - sz) \<longleftrightarrow> sz dvd length seq"
      using lt by (simp add: dvd_diff_nat dvd_minus_self less_imp_le)
    moreover have "(length seq - sz) mod sz = length seq mod sz"
      using lt by (simp add: le_mod_geq less_imp_le)
    ultimately show ?thesis
      using 1 ne by (simp add: chunks_step)
  qed
qed

lemma chunks_length_le: "0 < sz \<Longrightarrow> c \<in> set (chunks xs sz) \<Longrightarrow> length c \<le> sz \<and> c \<noteq> []"
proof (induction xs sz rule: chunks.induct)
  case (1 seq sz)
  show ?case
  proof (cases "seq = []")
    case True with 1 show ?thesis by simp
  next
    case False
    with 1 show ?thesis by (auto simp: chunks_step)
  qed
qed

lemma py_float_error: "py_float s = Inl e \<Longrightarrow> e = ValueError (NotAFloat s)"
  by (auto simp: py_float_def Let_def split: prod.splits if_splits option.splits)

lemma floats_of_error:
  "t \<in> set ts \<Longrightarrow> py_float t = Inl e0 \<Longrightarrow>
   \<exists>t' \<in> set ts. floats_of ts = Inl (ValueError (NotAFloat t'))"
proof (induction ts)
  case Nil then show ?case by simp
next
  case (Cons a ts)
  show ?case
  proof (cases "py_float a")
    case (Inl e)
    then show ?thesis using py_float_error [OF Inl] by simp
  next
    case (Inr x)
    with Cons obtain t' where "t' \<in> set ts" "floats_of ts = Inl (ValueError (NotAFloat t'))"
      by auto
    with Inr show ?thesis by auto
  qed
qed

lemma floats_of_length: "floats_of ts = Inr xs \<Longrightarrow> length xs = length ts"
  by (induction ts arbitrary: xs) (auto split: sum.splits)

lemma floats_of_ok:
  "map py_float ts = map Inr xs \<Longrightarrow> floats_of ts = Inr xs"
  by (induction ts arbitrary: xs) auto

lemma parse_linear_ring_none: "pos_text ring = None \<Longrightarrow> parse_linear_ring ring = Inr []"
  by (auto simp: pos_text_def parse_linear_ring_def split: option.splits)

lemma parse_linear_ring_text:
  "pos_text ring = Some txt \<Longrightarrow>
   parse_linear_ring ring =
     (case floats_of (py_split txt) of
        Inl e \<Rightarrow> Inl e
      | Inr raw \<Rightarrow>
          if length (chunks raw 3) > 1 \<and> tuple_eq (hd (chunks raw 3)) (last (chunks raw 3))
          then Inr (butlast (chunks raw 3)) else Inr (chunks raw 3))"
  by (auto simp: pos_text_def parse_linear_ring_def chunked_def py_split_def split: option.splits sum.splits)

section \<open>The loops of extraction and sampling\<close>

lemma unpack3_Inr: "unpack3 v = Inr (a, b, c) \<longleftrightarrow> v = [a, b, c]"
  by (cases v rule: unpack3.cases) auto

lemma unpack3_ok: "length v = 3 \<Longrightarrow> unpack3 v = Inr (v ! 0, v ! 1, v ! 2)"
  by (cases v rule: unpack3.cases) auto

lemma unpack3_error: "length v \<noteq> 3 \<Longrightarrow> \<exists>ve. unpack3 v = Inl (ValueError ve)"
  by (cases v rule: unpack3.cases) auto

lemma extend_rings_append:
  "extend_rings (xs @ ys) acc =
     (case extend_rings xs acc of Inl e \<Rightarrow> Inl e | Inr acc' \<Rightarrow> extend_rings ys acc')"
  by (induction xs arbitrary: acc) (auto split: sum.splits)

lemma extend_solids_flat:
  "extend_solids solids acc =
     extend_rings (concat (map (\<lambda>s. findall_descendants s (qname GML_NS ''LinearRing'')) solids)) acc"
  by (induction solids arbitrary: acc) (auto simp: extend_rings_append split: sum.splits)

lemma floats_of_Inl_D:
  "floats_of ts = Inl e \<Longrightarrow> \<exists>t \<in> set ts. py_float t = Inl e"
  by (induction ts) (auto split: sum.splits)

lemma parse_linear_ring_error_form:
  assumes "parse_linear_ring ring = Inl e"
  shows "\<exists>t. e = ValueError (NotAFloat t)"
proof (cases "pos_text ring")
  case None
  with assms show ?thesis
    by (simp add: parse_linear_ring_none)
next
  case (Some s)
  with assms have "floats_of (py_split s) = Inl e"
    by (auto simp: parse_linear_ring_text split: sum.splits if_splits)
  then have "\<exists>t \<in> set (py_split s). py_float t = Inl e"
    by (rule floats_of_Inl_D)
  then show ?thesis
    by (auto dest: py_float_error)
qed

lemma extend_rings_error:
  "ring \<in> set rings \<Longrightarrow> parse_linear_ring ring = Inl e \<Longrightarrow>
   \<exists>t. extend_rings rings acc = Inl (ValueError (NotAFloat t))"
proof (induction rings arbitrary: acc)
  case Nil then show ?case by simp
next
  case (Cons r rings)
  show ?case
  proof (cases "parse_linear_ring r")
    case (Inl e')
    then show ?thesis using parse_linear_ring_error_form [OF Inl] by auto
  next
    case (Inr coords)
    with Cons show ?thesis by auto
  qed
qed

lemma extend_rings_error_form:
  "extend_rings rings acc = Inl e \<Longrightarrow> \<exists>t. e = ValueError (NotAFloat t)"
  by (induction rings arbitrary: acc) (auto split: sum.splits dest: parse_linear_ring_error_form)

lemma extend_rings_ok:
  "map parse_linear_ring rings = map Inr cs \<Longrightarrow>
   extend_rings rings acc = Inr (acc @ concat (map polygon_to_triangles cs))"
  by (induction rings arbitrary: acc cs) auto

lemma extend_rings_Inr_D:
  "extend_rings rings acc = Inr ts \<Longrightarrow>
   \<exists>cs. map parse_linear_ring rings = map Inr cs \<and> ts = acc @ concat (map polygon_to_triangles cs)"
proof (induction rings arbitrary: acc)
  case Nil then show ?case by simp
next
  case (Cons r rings)
  then obtain coords where r: "parse_linear_ring r = Inr coords"
    and rest: "extend_rings rings (acc @ polygon_to_triangles coords) = Inr ts"
    by (auto split: sum.splits)
  from Cons.IH [OF rest] obtain cs where
    "map parse_linear_ring rings = map Inr cs"
    "ts = (acc @ polygon_to_triangles coords) @ concat (map polygon_to_triangles cs)"
    by blast
  with r have "map parse_linear_ring (r # rings) = map Inr (coords # cs) \<and>
      ts = acc @ concat (map polygon_to_triangles (coords # cs))"
    by simp
  then show ?case by blast
qed

lemma extract_triangles_flat:
  "extract_triangles d =
     (case extend_rings (concat (map (\<lambda>s. findall_descendants s (qname GML_NS ''LinearRing''))
                                  (findall_descendants d (qname BLDG_NS ''lod1Solid'')))) [] of
        Inl e \<Rightarrow> Inl e
      | Inr ts \<Rightarrow> if ts = [] then extend_rings (findall_descendants d (qname GML_NS ''LinearRing'')) []
                 else Inr ts)"
  by (simp add: extract_triangles_def extend_solids_flat)

lemma extract_triangles_error_form:
  "extract_triangles d = Inl e \<Longrightarrow> \<exists>t. e = ValueError (NotAFloat t)"
  by (auto simp: extract_triangles_flat split: sum.splits if_splits dest: extend_rings_error_form)

lemma sample_vertices_Inr:
  "sample_vertices vs lats lons = Inr (l1, l2) \<longleftrightarrow>
     (\<forall>v \<in> set vs. length v = 3) \<and> l1 = lats @ map (\<lambda>v. v ! 0) vs \<and> l2 = lons @ map (\<lambda>v. v ! 1) vs"
proof (induction vs arbitrary: lats lons)
  case Nil then show ?case by auto
next
  case (Cons v vs)
  show ?case
  proof (cases "length v = 3")
    case True
    then show ?thesis using Cons by (simp add: unpack3_ok)
  next
    case False
    then show ?thesis using unpack3_error [OF False] by auto
  qed
qed

lemma sample_vertices_error_form:
  "sample_vertices vs lats lons = Inl e \<Longrightarrow> \<exists>ve. e = ValueError ve"
proof (induction vs arbitrary: lats lons)
  case Nil then show ?case by simp
next
  case (Cons v vs)
  show ?case
  proof (cases "length v = 3")
    case True
    then show ?thesis using Cons by (simp add: unpack3_ok)
  next
    case False
    then show ?thesis using unpack3_error [OF False] Cons.prems by auto
  qed
qed

lemma sample_triangles_Inr:
  "sample_triangles tris lats lons = Inr (l1, l2) \<longleftrightarrow>
     (\<forall>v \<in> set (concat tris). length v = 3) \<and>
     l1 = lats @ map (\<lambda>v. v ! 0) (concat tris) \<and> l2 = lons @ map (\<lambda>v. v ! 1) (concat tris)"
proof (induction tris arbitrary: lats lons)
  case Nil then show ?case by auto
next
  case (Cons tri tris)
  show ?case
  proof (cases "sample_vertices tri lats lons")
    case (Inl e)
    then have "\<not> (\<forall>v \<in> set tri. length v = 3)"
      using sample_vertices_Inr [of tri lats lons] by auto
    with Inl show ?thesis by auto
  next
    case (Inr p)
    obtain a b where p: "p = (a, b)" by (cases p)
    from Inr p have "(\<forall>v \<in> set tri. length v = 3) \<and> a = lats @ map (\<lambda>v. v ! 0) tri \<and> b = lons @ map (\<lambda>v. v ! 1) tri"
      by (simp add: sample_vertices_Inr)
    with Inr p Cons.IH [of a b] show ?thesis by auto
  qed
qed

lemma sample_triangles_error_form:
  "sample_triangles tris lats lons = Inl e \<Longrightarrow> \<exists>ve. e = ValueError ve"
  by (induction tris arbitrary: lats lons)
     (auto split: sum.splits dest: sample_vertices_error_form)

lemma collect_error_form:
  "collect fs a l1 l2 = Inl e \<Longrightarrow> \<exists>ve. e = ValueError ve"
  by (induction fs arbitrary: a l1 l2)
     (auto split: sum.splits if_splits dest: sample_triangles_error_form extract_triangles_error_form)

lemma collect_error:
  "f \<in> set fs \<Longrightarrow> extract_triangles (doc_root f) = Inl e \<Longrightarrow> \<exists>ve. collect fs a l1 l2 = Inl (ValueError ve)"
proof (induction fs arbitrary: a l1 l2)
  case Nil then show ?case by simp
next
  case (Cons g fs)
  show ?case
  proof (cases "collect (g # fs) a l1 l2")
    case (Inl e')
    then show ?thesis using collect_error_form [OF Inl] by auto
  next
    case (Inr r)
    then have g: "\<exists>ts. extract_triangles (doc_root g) = Inr ts"
      by (auto split: sum.splits)
    with Cons.prems have "f \<in> set fs" by auto
    from Cons.IH [OF this Cons.prems(2)]
    have all: "\<And>a l1 l2. \<exists>ve. collect fs a l1 l2 = Inl (ValueError ve)" .
    from Inr have "\<exists>a' m1 m2. collect fs a' m1 m2 = Inr r"
      by (auto split: sum.splits if_splits)
    then obtain a' m1 m2 where "collect fs a' m1 m2 = Inr r" by blast
    with all [of a' m1 m2] show ?thesis by simp
  qed
qed


lemma collect_all_empty:
  "\<forall>f \<in> set fs. extract_triangles (doc_root f) = Inr [] \<Longrightarrow> collect fs a l1 l2 = Inr (a, l1, l2)"
  by (induction fs) auto

section \<open>The example documents\<close>

lemmas float_simps = py_float_def parse_number_def parse_exponent_def is_digit_def digit_val_def
  digits_val_def ascii_lower_def

lemmas split_simps = py_split_def is_space_def

lemma pos_text_linear_ring [simp]: "pos_text (linear_ring s) = Some s"
  by (simp add: pos_text_def linear_ring_def find_child_def)

lemma tag_linear_ring [simp]: "tag (linear_ring s) = qname GML_NS ''LinearRing''"
  by (simp add: linear_ring_def)

lemma iter_linear_ring:
  "iter (linear_ring s) = [linear_ring s, Element (qname GML_NS ''posList'') (Some s) []]"
  by (simp add: linear_ring_def)

lemma names_distinct [simp]:
  "qname GML_NS ''posList'' \<noteq> qname GML_NS ''LinearRing''"
  "qname GML_NS ''posList'' \<noteq> qname BLDG_NS ''lod1Solid''"
  "qname GML_NS ''LinearRing'' \<noteq> qname BLDG_NS ''lod1Solid''"
  "qname BLDG_NS ''lod1Solid'' \<noteq> qname GML_NS ''LinearRing''"
  "''CityModel'' \<noteq> qname GML_NS ''LinearRing''"
  "''CityModel'' \<noteq> qname BLDG_NS ''lod1Solid''"
  "''surface'' \<noteq> qname GML_NS ''LinearRing''"
  "''surface'' \<noteq> qname BLDG_NS ''lod1Solid''"
  by (simp_all add: qname_def GML_NS_def BLDG_NS_def)

lemma rings_of_linear_rings:
  "filter (\<lambda>d. tag d = qname GML_NS ''LinearRing'') (concat (map (iter \<circ> linear_ring) ss))
     = map linear_ring ss"
  by (induction ss) (simp_all add: iter_linear_ring)

lemma solids_of_linear_rings:
  "filter (\<lambda>d. tag d = qname BLDG_NS ''lod1Solid'') (concat (map (iter \<circ> linear_ring) ss)) = []"
  by (induction ss) (simp_all add: iter_linear_ring)

lemma solid_doc_solids:
  "findall_descendants (solid_doc (map linear_ring ss)) (qname BLDG_NS ''lod1Solid'')
     = [Element (qname BLDG_NS ''lod1Solid'') None (map linear_ring ss)]"
  by (simp add: findall_descendants_def solid_doc_def solids_of_linear_rings)

lemma solid_doc_solid_rings:
  "findall_descendants (Element (qname BLDG_NS ''lod1Solid'') None (map linear_ring ss))
     (qname GML_NS ''LinearRing'') = map linear_ring ss"
  by (simp add: findall_descendants_def rings_of_linear_rings)

lemma solid_doc_rings:
  "findall_descendants (solid_doc (map linear_ring ss)) (qname GML_NS ''LinearRing'')
     = map linear_ring ss"
  by (simp add: findall_descendants_def solid_doc_def rings_of_linear_rings)

lemma plain_doc_solids:
  "findall_descendants (plain_doc (map linear_ring ss)) (qname BLDG_NS ''lod1Solid'') = []"
  by (simp add: findall_descendants_def plain_doc_def solids_of_linear_rings)

lemma plain_doc_rings:
  "findall_descendants (plain_doc (map linear_ring ss)) (qname GML_NS ''LinearRing'')
     = map linear_ring ss"
  by (simp add: findall_descendants_def plain_doc_def rings_of_linear_rings)

lemma extract_solid_doc:
  "extract_triangles (solid_doc (map linear_ring ss)) =
     (case extend_rings (map linear_ring ss) [] of
        Inl e \<Rightarrow> Inl e
      | Inr ts \<Rightarrow> if ts = [] then extend_rings (map linear_ring ss) [] else Inr ts)"
  by (simp add: extract_triangles_flat solid_doc_solids solid_doc_solid_rings solid_doc_rings
      split: sum.splits)

lemma extract_plain_doc:
  "extract_triangles (plain_doc (map linear_ring ss)) = extend_rings (map linear_ring ss) []"
  by (simp add: extract_triangles_flat plain_doc_solids plain_doc_rings)

lemma extract_triangles_searches:
  "extract_triangles d =
     (case extend_rings (solid_rings d) [] of
        Inl e \<Rightarrow> Inl e
      | Inr ts \<Rightarrow> if ts = [] then extend_rings (all_rings d) [] else Inr ts)"
  by (simp add: extract_triangles_flat solid_rings_def all_rings_def split: sum.splits)

lemma solid_rings_solid_doc [simp]: "solid_rings (solid_doc (map linear_ring ss)) = map linear_ring ss"
  by (simp add: solid_rings_def solid_doc_solids solid_doc_solid_rings)

lemma all_rings_solid_doc [simp]: "all_rings (solid_doc (map linear_ring ss)) = map linear_ring ss"
  by (simp add: all_rings_def solid_doc_rings)

lemma solid_rings_plain_doc [simp]: "solid_rings (plain_doc (map linear_ring ss)) = []"
  by (simp add: solid_rings_def plain_doc_solids)

lemma all_rings_plain_doc [simp]: "all_rings (plain_doc (map linear_ring ss)) = map linear_ring ss"
  by (simp add: all_rings_def plain_doc_rings)

lemma scales_zero:
  "degrees_to_meters_converter (Fin 0) = Inr (Fin (3799303159231283 / 34359738368), Fin (3824903397698437 / 34359738368))"
  by (simp add: degrees_to_meters_converter_def radians_def degToRad_def Py_MATH_PI_def
      py_sub_def rd_examples)

lemmas run_simps = main_def limit_files_def slice_to_def gml_def world0_def unpack3_ok
  py_sum_def convert_coordinates_def scales_zero project_def grow_def empty_box_def
  py_sub_def py_min_def py_max_def rd_examples

section \<open>Tokens that are not floats\<close>

lemma main_collect_error:
  "collect (limit_files src_files limit) [] [] [] = Inl e \<Longrightarrow>
   main w src_files dest limit = (w, Some e)"
  by (simp add: main_def)

lemma main_success_D:
  assumes "main w src_files dest limit = (w', None)"
  shows "\<exists>all_triangles lats lons lat0 lon0 converted bnds s1 s2.
     collect (limit_files src_files limit) [] [] [] = Inr (all_triangles, lats, lons) \<and>
     all_triangles \<noteq> [] \<and>
     py_truediv (py_sum lats) (length lats) = Inr lat0 \<and>
     py_truediv (py_sum lons) (length lons) = Inr lon0 \<and>
     convert_coordinates all_triangles lat0 lon0 = Inr (converted, bnds) \<and>
     degrees_to_meters_converter lat0 = Inr (s1, s2) \<and>
     w' = w\<lparr>made_dirs := insert (butlast dest) (made_dirs w),
            files := (files w)(dest \<mapsto> Json
              \<lparr>origin_lat = lat0, origin_lon = lon0, triangles = converted,
               doc_bounds = bnds, source_files = map name (limit_files src_files limit),
               lat_scale_m_per_deg = s1, lon_scale_m_per_deg = s2\<rparr>)\<rparr>"
  using assms
  by (auto simp: main_def Let_def split: sum.splits prod.splits if_splits)

text \<open>
  C1 (amended). A ring whose coordinate list holds a token that \<^verbatim>\<open>float()\<close> refuses does not
  parse: \<open>parse_linear_ring\<close> raises the ValueError of the first such token. When extraction
  reaches the ring (it lies in a target solid, or the solids give no triangle and the
  fallback search finds it) the extraction raises, and a run that considers the file ends
  with a ValueError in the world it started from: no directory made, no file opened.
  The token \<^verbatim>\<open>NaN\<close> is not refused: \<^verbatim>\<open>float()\<close> decodes it to the value NaN.
\<close>

theorem invalid_token_aborts_run:
  assumes "pos_text ring = Some s" and "t \<in> set (py_split s)" and "py_float t = Inl e0"
  shows "(\<exists>t' \<in> set (py_split s). parse_linear_ring ring = Inl (ValueError (NotAFloat t'))) \<and>
         (\<forall>d. ring \<in> set (solid_rings d) \<or>
                extend_rings (solid_rings d) [] = Inr [] \<and> ring \<in> set (all_rings d)
              \<longrightarrow> (\<exists>t'. extract_triangles d = Inl (ValueError (NotAFloat t')))) \<and>
         (\<forall>w src_files dest limit f.
              f \<in> set (limit_files src_files limit) \<and>
              (ring \<in> set (solid_rings (doc_root f)) \<or>
               extend_rings (solid_rings (doc_root f)) [] = Inr [] \<and>
               ring \<in> set (all_rings (doc_root f)))
              \<longrightarrow> (\<exists>ve. main w src_files dest limit = (w, Some (ValueError ve)))) \<and>
         py_float ''NaN'' = Inr NaN"
proof -
  from floats_of_error [OF assms(2,3)] obtain t' where
    t': "t' \<in> set (py_split s)" "floats_of (py_split s) = Inl (ValueError (NotAFloat t'))"
    by blast
  then have p: "parse_linear_ring ring = Inl (ValueError (NotAFloat t'))"
    by (simp add: parse_linear_ring_text [OF assms(1)])
  have ex: "\<exists>t'. extract_triangles d = Inl (ValueError (NotAFloat t'))"
    if "ring \<in> set (solid_rings d) \<or>
        extend_rings (solid_rings d) [] = Inr [] \<and> ring \<in> set (all_rings d)" for d
    using that
  proof
    assume "ring \<in> set (solid_rings d)"
    from extend_rings_error [OF this p, of "[]"] show ?thesis
      by (auto simp: extract_triangles_searches)
  next
    assume "extend_rings (solid_rings d) [] = Inr [] \<and> ring \<in> set (all_rings d)"
    then show ?thesis
      using extend_rings_error [OF _ p, of "all_rings d" "[]"]
      by (auto simp: extract_triangles_searches)
  qed
  have run: "\<exists>ve. main w src_files dest limit = (w, Some (ValueError ve))"
    if "f \<in> set (limit_files src_files limit)"
      and "ring \<in> set (solid_rings (doc_root f)) \<or>
           extend_rings (solid_rings (doc_root f)) [] = Inr [] \<and>
           ring \<in> set (all_rings (doc_root f))"
    for w src_files dest limit f
  proof -
    from ex [OF that(2)] obtain u where "extract_triangles (doc_root f) = Inl (ValueError (NotAFloat u))"
      by blast
    from collect_error [OF that(1) this, of "[]" "[]" "[]"] obtain ve where
      "collect (limit_files src_files limit) [] [] [] = Inl (ValueError ve)"
      by blast
    then show ?thesis
      by (auto simp: main_collect_error)
  qed
  have nan: "py_float ''NaN'' = Inr NaN"
    by (simp add: float_simps)
  from t'(1) p ex run nan show ?thesis
    by blast
qed

lemma tokens_abc:
  "py_split ''0 0 abc'' = [''0'', ''0'', ''abc'']"
  "py_float ''abc'' = Inl (ValueError (NotAFloat ''abc''))"
  by (simp_all add: float_simps split_simps)

theorem invalid_token_aborts_run_witness:
  "pos_text (linear_ring ''0 0 abc'') = Some ''0 0 abc'' \<and>
   ''abc'' \<in> set (py_split ''0 0 abc'') \<and>
   py_float ''abc'' = Inl (ValueError (NotAFloat ''abc'')) \<and>
   (\<exists>t' \<in> set (py_split ''0 0 abc'').
      parse_linear_ring (linear_ring ''0 0 abc'') = Inl (ValueError (NotAFloat t'))) \<and>
   linear_ring ''0 0 abc'' \<in> set (solid_rings (solid_doc [linear_ring ''0 0 abc''])) \<and>
   (\<exists>t'. extract_triangles (solid_doc [linear_ring ''0 0 abc'']) = Inl (ValueError (NotAFloat t'))) \<and>
   gml ''a.gml'' (solid_doc [linear_ring ''0 0 abc'']) \<in>
     set (limit_files [gml ''a.gml'' (solid_doc [linear_ring ''0 0 abc''])] 12) \<and>
   (\<exists>ve. main world0 [gml ''a.gml'' (solid_doc [linear_ring ''0 0 abc''])] [''out'', ''mesh.json''] 12
      = (world0, Some (ValueError ve))) \<and>
   py_float ''NaN'' = Inr NaN"
proof -
  let ?r = "linear_ring ''0 0 abc''"
  let ?d = "solid_doc [?r]"
  let ?f = "gml ''a.gml'' ?d"
  have h1: "pos_text ?r = Some ''0 0 abc''" by simp
  have h2: "''abc'' \<in> set (py_split ''0 0 abc'')" by (simp add: tokens_abc)
  have h3: "py_float ''abc'' = Inl (ValueError (NotAFloat ''abc''))" by (simp add: tokens_abc)
  have h4: "?r \<in> set (solid_rings ?d)"
    using solid_rings_solid_doc [of "[''0 0 abc'']"] by simp
  have h5: "?f \<in> set (limit_files [?f] 12)"
    by (simp add: limit_files_def slice_to_def)
  have h6: "doc_root ?f = ?d" by (simp add: gml_def)
  note inst = invalid_token_aborts_run [OF h1 h2 h3]
  from inst have c1: "\<exists>t' \<in> set (py_split ''0 0 abc'').
      parse_linear_ring ?r = Inl (ValueError (NotAFloat t'))"
    by blast
  from inst h4 have c2: "\<exists>t'. extract_triangles ?d = Inl (ValueError (NotAFloat t'))"
    by blast
  from inst have "f \<in> set (limit_files src_files limit) \<and>
              (?r \<in> set (solid_rings (doc_root f)) \<or>
               extend_rings (solid_rings (doc_root f)) [] = Inr [] \<and>
               ?r \<in> set (all_rings (doc_root f)))
              \<longrightarrow> (\<exists>ve. main w src_files dest limit = (w, Some (ValueError ve)))"
    for w src_files dest limit f
    by blast
  from this [of ?f "[?f]" 12 world0 "[''out'', ''mesh.json'']"] h4 h5 h6
  have c3: "\<exists>ve. main world0 [?f] [''out'', ''mesh.json''] 12 = (world0, Some (ValueError ve))"
    by simp
  from inst have c4: "py_float ''NaN'' = Inr NaN"
    by blast
  from h1 h2 h3 h4 h5 c1 c2 c3 c4 show ?thesis
    by blast
qed

lemma solid_rings_mixed_doc [simp]:
  "solid_rings (mixed_doc (map linear_ring ss) (map linear_ring ps)) = map linear_ring ss"
  by (simp add: solid_rings_def findall_descendants_def mixed_doc_def solids_of_linear_rings
      rings_of_linear_rings)

lemma all_rings_mixed_doc [simp]:
  "all_rings (mixed_doc (map linear_ring ss) (map linear_ring ps)) = map linear_ring (ss @ ps)"
  by (simp add: all_rings_def findall_descendants_def mixed_doc_def rings_of_linear_rings)

lemma tokens_nan: "floats_of (py_split ''0 0 NaN 0 1 0 0 1 5'')
    = Inr [Fin 0, Fin 0, NaN, Fin 0, Fin 1, Fin 0, Fin 0, Fin 1, Fin 5]"
  by (simp add: float_simps split_simps)

lemma parse_nan: "parse_linear_ring (linear_ring ''0 0 NaN 0 1 0 0 1 5'')
    = Inr [[Fin 0, Fin 0, NaN], [Fin 0, Fin 1, Fin 0], [Fin 0, Fin 1, Fin 5]]"
  by (simp add: parse_linear_ring_text tokens_nan tuple_eq_def py_eq_def)

lemma extract_nan: "extract_triangles (solid_doc [linear_ring ''0 0 NaN 0 1 0 0 1 5''])
    = Inr [[[Fin 0, Fin 0, NaN], [Fin 0, Fin 1, Fin 0], [Fin 0, Fin 1, Fin 5]]]"
  using extract_solid_doc [of "[''0 0 NaN 0 1 0 0 1 5'']"]
  by (simp add: parse_nan polygon_to_triangles_def)

lemma extract_nan_abc:
  "extract_triangles (mixed_doc [linear_ring ''0 0 NaN 0 1 0 0 1 5''] [linear_ring ''0 0 abc''])
    = Inr [[[Fin 0, Fin 0, NaN], [Fin 0, Fin 1, Fin 0], [Fin 0, Fin 1, Fin 5]]]"
  using solid_rings_mixed_doc [of "[''0 0 NaN 0 1 0 0 1 5'']" "[''0 0 abc'']"]
  by (simp add: extract_triangles_searches parse_nan polygon_to_triangles_def)

lemma parse_abc:
  "parse_linear_ring (linear_ring ''0 0 abc'') = Inl (ValueError (NotAFloat ''abc''))"
  by (simp add: parse_linear_ring_text float_simps split_simps)

text \<open>
  The token \<^verbatim>\<open>NaN\<close> is a float literal for \<^verbatim>\<open>float()\<close>: the ring parses, and the run
  on a file with such a ring ends without an exception and writes the document. So does the
  run on a file that has, outside its target solid, a ring with the token \<^verbatim>\<open>abc\<close>: the
  solid gives a triangle, the fallback search is not taken and that ring is never parsed.
\<close>

theorem nan_token_counterexample:
  "py_float ''NaN'' = Inr NaN \<and>
   parse_linear_ring (linear_ring ''0 0 NaN 0 1 0 0 1 5'')
     = Inr [[Fin 0, Fin 0, NaN], [Fin 0, Fin 1, Fin 0], [Fin 0, Fin 1, Fin 5]] \<and>
   main world0 [gml ''a.gml'' (solid_doc [linear_ring ''0 0 NaN 0 1 0 0 1 5''])] [''out'', ''mesh.json''] 12
   = (\<lparr>made_dirs = {[''out'']},
       files = [[''out'', ''mesh.json''] \<mapsto> Json
         \<lparr>origin_lat = Fin 0, origin_lon = Fin (6004799503160661 / 9007199254740992),
          triangles = [[Fin (- (5099871196931249 / 68719476736)), NaN, Fin 0,
                        Fin (2549935598465625 / 68719476736), Fin 0, Fin 0,
                        Fin (2549935598465625 / 68719476736), Fin 5, Fin 0]],
          doc_bounds = \<lparr>bounds_min = [Fin (- (5099871196931249 / 68719476736)), Fin 0, Fin 0],
                        bounds_max = [Fin (2549935598465625 / 68719476736), Fin 5, Fin 0]\<rparr>,
          source_files = [''a.gml''],
          lat_scale_m_per_deg = Fin (3799303159231283 / 34359738368), lon_scale_m_per_deg = Fin (3824903397698437 / 34359738368)\<rparr>]\<rparr>, None) \<and>
   parse_linear_ring (linear_ring ''0 0 abc'') = Inl (ValueError (NotAFloat ''abc'')) \<and>
   main world0 [gml ''a.gml'' (mixed_doc [linear_ring ''0 0 NaN 0 1 0 0 1 5''] [linear_ring ''0 0 abc''])]
        [''out'', ''mesh.json''] 12
   = (\<lparr>made_dirs = {[''out'']},
       files = [[''out'', ''mesh.json''] \<mapsto> Json
         \<lparr>origin_lat = Fin 0, origin_lon = Fin (6004799503160661 / 9007199254740992),
          triangles = [[Fin (- (5099871196931249 / 68719476736)), NaN, Fin 0,
                        Fin (2549935598465625 / 68719476736), Fin 0, Fin 0,
                        Fin (2549935598465625 / 68719476736), Fin 5, Fin 0]],
          doc_bounds = \<lparr>bounds_min = [Fin (- (5099871196931249 / 68719476736)), Fin 0, Fin 0],
                        bounds_max = [Fin (2549935598465625 / 68719476736), Fin 5, Fin 0]\<rparr>,
          source_files = [''a.gml''],
          lat_scale_m_per_deg = Fin (3799303159231283 / 34359738368), lon_scale_m_per_deg = Fin (3824903397698437 / 34359738368)\<rparr>]\<rparr>, None)"
proof (intro conjI)
  show "py_float ''NaN'' = Inr NaN"
    by (simp add: float_simps)
  show "parse_linear_ring (linear_ring ''0 0 NaN 0 1 0 0 1 5'')
     = Inr [[Fin 0, Fin 0, NaN], [Fin 0, Fin 1, Fin 0], [Fin 0, Fin 1, Fin 5]]"
    by (rule parse_nan)
  show "main world0 [gml ''a.gml'' (solid_doc [linear_ring ''0 0 NaN 0 1 0 0 1 5''])] [''out'', ''mesh.json''] 12
   = (\<lparr>made_dirs = {[''out'']},
       files = [[''out'', ''mesh.json''] \<mapsto> Json
         \<lparr>origin_lat = Fin 0, origin_lon = Fin (6004799503160661 / 9007199254740992),
          triangles = [[Fin (- (5099871196931249 / 68719476736)), NaN, Fin 0,
                        Fin (2549935598465625 / 68719476736), Fin 0, Fin 0,
                        Fin (2549935598465625 / 68719476736), Fin 5, Fin 0]],
          doc_bounds = \<lparr>bounds_min = [Fin (- (5099871196931249 / 68719476736)), Fin 0, Fin 0],
                        bounds_max = [Fin (2549935598465625 / 68719476736), Fin 5, Fin 0]\<rparr>,
          source_files = [''a.gml''],
          lat_scale_m_per_deg = Fin (3799303159231283 / 34359738368), lon_scale_m_per_deg = Fin (3824903397698437 / 34359738368)\<rparr>]\<rparr>, None)"
    by (simp add: run_simps extract_nan)
  show "parse_linear_ring (linear_ring ''0 0 abc'') = Inl (ValueError (NotAFloat ''abc''))"
    by (rule parse_abc)
  show "main world0 [gml ''a.gml'' (mixed_doc [linear_ring ''0 0 NaN 0 1 0 0 1 5''] [linear_ring ''0 0 abc''])]
        [''out'', ''mesh.json''] 12
   = (\<lparr>made_dirs = {[''out'']},
       files = [[''out'', ''mesh.json''] \<mapsto> Json
         \<lparr>origin_lat = Fin 0, origin_lon = Fin (6004799503160661 / 9007199254740992),
          triangles = [[Fin (- (5099871196931249 / 68719476736)), NaN, Fin 0,
                        Fin (2549935598465625 / 68719476736), Fin 0, Fin 0,
                        Fin (2549935598465625 / 68719476736), Fin 5, Fin 0]],
          doc_bounds = \<lparr>bounds_min = [Fin (- (5099871196931249 / 68719476736)), Fin 0, Fin 0],
                        bounds_max = [Fin (2549935598465625 / 68719476736), Fin 5, Fin 0]\<rparr>,
          source_files = [''a.gml''],
          lat_scale_m_per_deg = Fin (3799303159231283 / 34359738368), lon_scale_m_per_deg = Fin (3824903397698437 / 34359738368)\<rparr>]\<rparr>, None)"
    by (simp add: run_simps extract_nan_abc)
qed

section \<open>The triangle file and the empty file\<close>

lemma tokens_tri: "floats_of (py_split ''0 0 0 0 1 0 0 1 5 0 0 0'')
    = Inr [Fin 0, Fin 0, Fin 0, Fin 0, Fin 1, Fin 0, Fin 0, Fin 1, Fin 5, Fin 0, Fin 0, Fin 0]"
  by (simp add: float_simps split_simps)

lemma parse_tri: "parse_linear_ring (linear_ring ''0 0 0 0 1 0 0 1 5 0 0 0'')
    = Inr [[Fin 0, Fin 0, Fin 0], [Fin 0, Fin 1, Fin 0], [Fin 0, Fin 1, Fin 5]]"
  by (simp add: parse_linear_ring_text tokens_tri tuple_eq_def py_eq_def)

lemma extract_tri: "extract_triangles (solid_doc [linear_ring ''0 0 0 0 1 0 0 1 5 0 0 0''])
    = Inr [[[Fin 0, Fin 0, Fin 0], [Fin 0, Fin 1, Fin 0], [Fin 0, Fin 1, Fin 5]]]"
  using extract_solid_doc [of "[''0 0 0 0 1 0 0 1 5 0 0 0'']"]
  by (simp add: parse_tri polygon_to_triangles_def)

lemma extract_empty: "extract_triangles (solid_doc []) = Inr []"
  using extract_solid_doc [of "[]"] by simp

lemma main_two_files:
  "main world0 [gml ''a.gml'' (solid_doc []),
                gml ''b.gml'' (solid_doc [linear_ring ''0 0 0 0 1 0 0 1 5 0 0 0''])]
        [''out'', ''mesh.json''] 12
   = (\<lparr>made_dirs = {[''out'']},
       files = [[''out'', ''mesh.json''] \<mapsto> Json
         \<lparr>origin_lat = Fin 0, origin_lon = Fin (6004799503160661 / 9007199254740992),
          triangles = [[Fin (- (5099871196931249 / 68719476736)), Fin 0, Fin 0,
                        Fin (2549935598465625 / 68719476736), Fin 0, Fin 0,
                        Fin (2549935598465625 / 68719476736), Fin 5, Fin 0]],
          doc_bounds = \<lparr>bounds_min = [Fin (- (5099871196931249 / 68719476736)), Fin 0, Fin 0],
                        bounds_max = [Fin (2549935598465625 / 68719476736), Fin 5, Fin 0]\<rparr>,
          source_files = [''a.gml'', ''b.gml''],
          lat_scale_m_per_deg = Fin (3799303159231283 / 34359738368), lon_scale_m_per_deg = Fin (3824903397698437 / 34359738368)\<rparr>]\<rparr>, None)"
  by (simp add: run_simps extract_tri extract_empty)

section \<open>The run: metadata, empty input, origin\<close>

text \<open>
  C2 (amended). A run that produces output lists in \<^verbatim>\<open>metadata.source_files\<close> the names of
  all the files it considered (the sorted files cut by the limit), in processing order,
  whether or not a file gave a triangle.
\<close>

theorem source_files_are_considered_files:
  assumes "main w src_files dest limit = (w', None)"
  shows "\<exists>doc. files w' dest = Some (Json doc) \<and>
               source_files doc = map name (limit_files src_files limit)"
  using main_success_D [OF assms] by auto

theorem source_files_are_considered_files_witness:
  "main world0 [gml ''a.gml'' (solid_doc []),
                gml ''b.gml'' (solid_doc [linear_ring ''0 0 0 0 1 0 0 1 5 0 0 0''])]
        [''out'', ''mesh.json''] 12
   = (\<lparr>made_dirs = {[''out'']},
       files = [[''out'', ''mesh.json''] \<mapsto> Json
         \<lparr>origin_lat = Fin 0, origin_lon = Fin (6004799503160661 / 9007199254740992),
          triangles = [[Fin (- (5099871196931249 / 68719476736)), Fin 0, Fin 0,
                        Fin (2549935598465625 / 68719476736), Fin 0, Fin 0,
                        Fin (2549935598465625 / 68719476736), Fin 5, Fin 0]],
          doc_bounds = \<lparr>bounds_min = [Fin (- (5099871196931249 / 68719476736)), Fin 0, Fin 0],
                        bounds_max = [Fin (2549935598465625 / 68719476736), Fin 5, Fin 0]\<rparr>,
          source_files = [''a.gml'', ''b.gml''],
          lat_scale_m_per_deg = Fin (3799303159231283 / 34359738368), lon_scale_m_per_deg = Fin (3824903397698437 / 34359738368)\<rparr>]\<rparr>, None) \<and>
   (\<exists>doc. files \<lparr>made_dirs = {[''out'']},
       files = [[''out'', ''mesh.json''] \<mapsto> Json
         \<lparr>origin_lat = Fin 0, origin_lon = Fin (6004799503160661 / 9007199254740992),
          triangles = [[Fin (- (5099871196931249 / 68719476736)), Fin 0, Fin 0,
                        Fin (2549935598465625 / 68719476736), Fin 0, Fin 0,
                        Fin (2549935598465625 / 68719476736), Fin 5, Fin 0]],
          doc_bounds = \<lparr>bounds_min = [Fin (- (5099871196931249 / 68719476736)), Fin 0, Fin 0],
                        bounds_max = [Fin (2549935598465625 / 68719476736), Fin 5, Fin 0]\<rparr>,
          source_files = [''a.gml'', ''b.gml''],
          lat_scale_m_per_deg = Fin (3799303159231283 / 34359738368), lon_scale_m_per_deg = Fin (3824903397698437 / 34359738368)\<rparr>]\<rparr>
        [''out'', ''mesh.json''] = Some (Json doc) \<and>
      source_files doc = map name (limit_files [gml ''a.gml'' (solid_doc []),
                gml ''b.gml'' (solid_doc [linear_ring ''0 0 0 0 1 0 0 1 5 0 0 0''])] 12))"
  using source_files_are_considered_files [OF main_two_files] main_two_files by blast

text \<open>
  The first of two files gives no triangle, the second gives one; the run succeeds and
  \<^verbatim>\<open>source_files\<close> holds both names.
\<close>

theorem source_files_counterexample:
  "extract_triangles (solid_doc []) = Inr [] \<and>
   main world0 [gml ''a.gml'' (solid_doc []),
                gml ''b.gml'' (solid_doc [linear_ring ''0 0 0 0 1 0 0 1 5 0 0 0''])]
        [''out'', ''mesh.json''] 12
   = (\<lparr>made_dirs = {[''out'']},
       files = [[''out'', ''mesh.json''] \<mapsto> Json
         \<lparr>origin_lat = Fin 0, origin_lon = Fin (6004799503160661 / 9007199254740992),
          triangles = [[Fin (- (5099871196931249 / 68719476736)), Fin 0, Fin 0,
                        Fin (2549935598465625 / 68719476736), Fin 0, Fin 0,
                        Fin (2549935598465625 / 68719476736), Fin 5, Fin 0]],
          doc_bounds = \<lparr>bounds_min = [Fin (- (5099871196931249 / 68719476736)), Fin 0, Fin 0],
                        bounds_max = [Fin (2549935598465625 / 68719476736), Fin 5, Fin 0]\<rparr>,
          source_files = [''a.gml'', ''b.gml''],
          lat_scale_m_per_deg = Fin (3799303159231283 / 34359738368), lon_scale_m_per_deg = Fin (3824903397698437 / 34359738368)\<rparr>]\<rparr>, None)"
  using extract_empty main_two_files by (rule conjI)

text \<open>
  C5. When no considered file gives a triangle the run ends with
  \<^verbatim>\<open>SystemExit("No triangles could be extracted from the provided GML files")\<close> in the world
  it started from: the directory is not made and the output file is not opened.
\<close>

theorem no_triangles_exits:
  assumes "\<forall>f \<in> set (limit_files src_files limit). extract_triangles (doc_root f) = Inr []"
  shows "main w src_files dest limit =
           (w, Some (SystemExit ''No triangles could be extracted from the provided GML files''))"
  using collect_all_empty [OF assms, of "[]" "[]" "[]"]
  by (simp add: main_def no_triangles_message_def)

lemma tokens_two: "floats_of (py_split ''0 0 0 1 1 1'') = Inr [Fin 0, Fin 0, Fin 0, Fin 1, Fin 1, Fin 1]"
  by (simp add: float_simps split_simps)

lemma extract_two: "extract_triangles (plain_doc [linear_ring ''0 0 0 1 1 1'']) = Inr []"
  using extract_plain_doc [of "[''0 0 0 1 1 1'']"]
  by (simp add: parse_linear_ring_text tokens_two tuple_eq_def py_eq_def polygon_to_triangles_def)

theorem no_triangles_exits_witness:
  "limit_files [gml ''a.gml'' (solid_doc []), gml ''b.gml'' (plain_doc [linear_ring ''0 0 0 1 1 1''])] 12
     = [gml ''a.gml'' (solid_doc []), gml ''b.gml'' (plain_doc [linear_ring ''0 0 0 1 1 1''])] \<and>
   extract_triangles (doc_root (gml ''a.gml'' (solid_doc []))) = Inr [] \<and>
   extract_triangles (doc_root (gml ''b.gml'' (plain_doc [linear_ring ''0 0 0 1 1 1'']))) = Inr [] \<and>
   main world0 [gml ''a.gml'' (solid_doc []), gml ''b.gml'' (plain_doc [linear_ring ''0 0 0 1 1 1''])]
     [''out'', ''mesh.json''] 12 =
     (world0, Some (SystemExit ''No triangles could be extracted from the provided GML files''))"
proof -
  let ?fs = "[gml ''a.gml'' (solid_doc []), gml ''b.gml'' (plain_doc [linear_ring ''0 0 0 1 1 1''])]"
  have l: "limit_files ?fs 12 = ?fs"
    by (simp add: limit_files_def slice_to_def)
  have a: "extract_triangles (doc_root (gml ''a.gml'' (solid_doc []))) = Inr []"
    by (simp add: gml_def extract_empty)
  have b: "extract_triangles (doc_root (gml ''b.gml'' (plain_doc [linear_ring ''0 0 0 1 1 1'']))) = Inr []"
    by (simp add: gml_def extract_two)
  have h: "\<forall>f \<in> set (limit_files ?fs 12). extract_triangles (doc_root f) = Inr []"
    using a b by (simp add: l)
  from l a b no_triangles_exits [OF h, of world0 "[''out'', ''mesh.json'']"] show ?thesis
    by blast
qed

section \<open>The origin\<close>









section \<open>The fallback search\<close>

text \<open>
  C9. If the loop over the target solids ends with no triangle, the result of
  \<open>extract_triangles\<close> is that of the loop over every ring of the document: the triangles of
  those rings, in document order. If it ends with at least one triangle, these are the
  result and the second search is not made.
\<close>

theorem fallback_search:
  "(extend_solids (findall_descendants d (qname BLDG_NS ''lod1Solid'')) [] = Inr [] \<longrightarrow>
      extract_triangles d = extend_rings (findall_descendants d (qname GML_NS ''LinearRing'')) [] \<and>
      (\<forall>cs. map parse_linear_ring (findall_descendants d (qname GML_NS ''LinearRing'')) = map Inr cs
            \<longrightarrow> extract_triangles d = Inr (concat (map polygon_to_triangles cs)))) \<and>
   (\<forall>ts. extend_solids (findall_descendants d (qname BLDG_NS ''lod1Solid'')) [] = Inr ts \<and> ts \<noteq> []
         \<longrightarrow> extract_triangles d = Inr ts)"
proof (intro conjI impI allI)
  assume z: "extend_solids (findall_descendants d (qname BLDG_NS ''lod1Solid'')) [] = Inr []"
  then show e: "extract_triangles d = extend_rings (findall_descendants d (qname GML_NS ''LinearRing'')) []"
    by (simp add: extract_triangles_def)
  fix cs
  assume "map parse_linear_ring (findall_descendants d (qname GML_NS ''LinearRing'')) = map Inr cs"
  from extend_rings_ok [OF this, of "[]"] e
  show "extract_triangles d = Inr (concat (map polygon_to_triangles cs))"
    by simp
next
  fix ts
  assume "extend_solids (findall_descendants d (qname BLDG_NS ''lod1Solid'')) [] = Inr ts \<and> ts \<noteq> []"
  then show "extract_triangles d = Inr ts"
    by (simp add: extract_triangles_def)
qed

lemma restricted_search:
  "extend_solids (findall_descendants d (qname BLDG_NS ''lod1Solid'')) acc
     = extend_rings (solid_rings d) acc"
  by (simp add: extend_solids_flat solid_rings_def)

lemma tokens_other: "floats_of (py_split ''1 1 0 1 2 0 2 2 0'')
    = Inr [Fin 1, Fin 1, Fin 0, Fin 1, Fin 2, Fin 0, Fin 2, Fin 2, Fin 0]"
  by (simp add: float_simps split_simps)

lemma parse_other: "parse_linear_ring (linear_ring ''1 1 0 1 2 0 2 2 0'')
    = Inr [[Fin 1, Fin 1, Fin 0], [Fin 1, Fin 2, Fin 0], [Fin 2, Fin 2, Fin 0]]"
  by (simp add: parse_linear_ring_text tokens_other tuple_eq_def py_eq_def)

theorem fallback_search_witness:
  "extend_solids (findall_descendants (mixed_doc [] [linear_ring ''0 0 0 0 1 0 0 1 5 0 0 0''])
      (qname BLDG_NS ''lod1Solid'')) [] = Inr [] \<and>
   extract_triangles (mixed_doc [] [linear_ring ''0 0 0 0 1 0 0 1 5 0 0 0''])
     = Inr [[[Fin 0, Fin 0, Fin 0], [Fin 0, Fin 1, Fin 0], [Fin 0, Fin 1, Fin 5]]] \<and>
   extend_solids (findall_descendants
      (mixed_doc [linear_ring ''0 0 0 0 1 0 0 1 5 0 0 0''] [linear_ring ''1 1 0 1 2 0 2 2 0''])
      (qname BLDG_NS ''lod1Solid'')) []
     = Inr [[[Fin 0, Fin 0, Fin 0], [Fin 0, Fin 1, Fin 0], [Fin 0, Fin 1, Fin 5]]] \<and>
   extract_triangles
      (mixed_doc [linear_ring ''0 0 0 0 1 0 0 1 5 0 0 0''] [linear_ring ''1 1 0 1 2 0 2 2 0''])
     = Inr [[[Fin 0, Fin 0, Fin 0], [Fin 0, Fin 1, Fin 0], [Fin 0, Fin 1, Fin 5]]]"
proof -
  let ?d1 = "mixed_doc [] [linear_ring ''0 0 0 0 1 0 0 1 5 0 0 0'']"
  let ?d2 = "mixed_doc [linear_ring ''0 0 0 0 1 0 0 1 5 0 0 0''] [linear_ring ''1 1 0 1 2 0 2 2 0'']"
  let ?t = "[[[Fin 0, Fin 0, Fin 0], [Fin 0, Fin 1, Fin 0], [Fin 0, Fin 1, Fin 5]]]"
  have s1: "solid_rings ?d1 = []"
    using solid_rings_mixed_doc [of "[]" "[''0 0 0 0 1 0 0 1 5 0 0 0'']"] by simp
  have a1: "findall_descendants ?d1 (qname GML_NS ''LinearRing'')
      = [linear_ring ''0 0 0 0 1 0 0 1 5 0 0 0'']"
    using all_rings_mixed_doc [of "[]" "[''0 0 0 0 1 0 0 1 5 0 0 0'']"]
    by (simp add: all_rings_def)
  have s2: "solid_rings ?d2 = [linear_ring ''0 0 0 0 1 0 0 1 5 0 0 0'']"
    using solid_rings_mixed_doc [of "[''0 0 0 0 1 0 0 1 5 0 0 0'']" "[''1 1 0 1 2 0 2 2 0'']"]
    by simp
  have h1: "extend_solids (findall_descendants ?d1 (qname BLDG_NS ''lod1Solid'')) [] = Inr []"
    by (simp add: restricted_search s1)
  have h2: "extend_solids (findall_descendants ?d2 (qname BLDG_NS ''lod1Solid'')) [] = Inr ?t"
    by (simp add: restricted_search s2 parse_tri polygon_to_triangles_def)
  from fallback_search [of ?d1] h1
  have "extract_triangles ?d1 = extend_rings (findall_descendants ?d1 (qname GML_NS ''LinearRing'')) []"
    by blast
  then have c1: "extract_triangles ?d1 = Inr ?t"
    by (simp add: a1 parse_tri polygon_to_triangles_def)
  from fallback_search [of ?d2] h2
  have c2: "extract_triangles ?d2 = Inr ?t"
    by blast
  from h1 c1 h2 c2 show ?thesis
    by blast
qed

section \<open>The projection loops\<close>

lemma convert_vertices_Inr:
  "convert_vertices lat0 lon0 ls lo vs b flat = Inr (b', flat') \<longleftrightarrow>
     (\<forall>v \<in> set vs. length v = 3) \<and>
     b' = foldl grow b (map (\<lambda>v. project lat0 lon0 ls lo (triple v)) vs) \<and>
     flat' = flat @ concat (map (\<lambda>v. flat3 (project lat0 lon0 ls lo (triple v))) vs)"
proof (induction vs arbitrary: b flat)
  case Nil
  then show ?case by auto
next
  case (Cons v vs)
  show ?case
  proof (cases "length v = 3")
    case True
    obtain x y z where p: "project lat0 lon0 ls lo (v ! 0, v ! 1, v ! 2) = (x, y, z)"
      by (cases "project lat0 lon0 ls lo (v ! 0, v ! 1, v ! 2)")
    with True Cons show ?thesis
      by (simp add: unpack3_ok triple_def flat3_def)
  next
    case False
    then show ?thesis using unpack3_error [OF False] by auto
  qed
qed

lemma convert_vertices_error:
  "v \<in> set vs \<Longrightarrow> length v \<noteq> 3 \<Longrightarrow>
   \<exists>ve. convert_vertices lat0 lon0 ls lo vs b flat = Inl (ValueError ve)"
proof (induction vs arbitrary: b flat)
  case Nil then show ?case by simp
next
  case (Cons u vs)
  show ?case
  proof (cases "length u = 3")
    case True
    with Cons.prems have "v \<in> set vs" by auto
    from Cons.IH [OF this Cons.prems(2)] True show ?thesis
      by (simp add: unpack3_ok split: prod.splits)
  next
    case False
    then show ?thesis using unpack3_error [OF False] by auto
  qed
qed

lemma sample_vertices_error:
  "v \<in> set vs \<Longrightarrow> length v \<noteq> 3 \<Longrightarrow>
   \<exists>ve. sample_vertices vs lats lons = Inl (ValueError ve)"
proof (cases "sample_vertices vs lats lons")
  case (Inl e)
  assume "v \<in> set vs" "length v \<noteq> 3"
  from sample_vertices_error_form [OF Inl] Inl show ?thesis by auto
next
  case (Inr p)
  assume a: "v \<in> set vs" "length v \<noteq> 3"
  obtain l1 l2 where "p = (l1, l2)" by (cases p)
  with Inr have "\<forall>v \<in> set vs. length v = 3"
    by (simp add: sample_vertices_Inr)
  with a show ?thesis by auto
qed

lemma convert_triangles_Inr:
  "convert_triangles lat0 lon0 ls lo tris b conv = Inr (b', conv') \<longleftrightarrow>
     (\<forall>v \<in> set (concat tris). length v = 3) \<and>
     b' = foldl grow b (map (\<lambda>v. project lat0 lon0 ls lo (triple v)) (concat tris)) \<and>
     conv' = conv @ map (\<lambda>tri. concat (map (\<lambda>v. flat3 (project lat0 lon0 ls lo (triple v))) tri)) tris"
proof (induction tris arbitrary: b conv)
  case Nil
  then show ?case by auto
next
  case (Cons tri tris)
  show ?case
  proof (cases "convert_vertices lat0 lon0 ls lo tri b []")
    case (Inl e)
    then have "\<not> (\<forall>v \<in> set tri. length v = 3)"
      using convert_vertices_Inr [of lat0 lon0 ls lo tri b "[]"] by auto
    with Inl show ?thesis by auto
  next
    case (Inr p)
    obtain b1 flat where p: "p = (b1, flat)" by (cases p)
    from Inr p have v: "(\<forall>v \<in> set tri. length v = 3)"
      "b1 = foldl grow b (map (\<lambda>v. project lat0 lon0 ls lo (triple v)) tri)"
      "flat = concat (map (\<lambda>v. flat3 (project lat0 lon0 ls lo (triple v))) tri)"
      by (simp_all add: convert_vertices_Inr)
    with Inr p Cons.IH [of b1 "conv @ [flat]"] show ?thesis
      by auto
  qed
qed

lemma grow_fields:
  "min_x (foldl grow b ps) = foldl py_min (min_x b) (map fst ps)"
  "min_y (foldl grow b ps) = foldl py_min (min_y b) (map (fst \<circ> snd) ps)"
  "min_z (foldl grow b ps) = foldl py_min (min_z b) (map (snd \<circ> snd) ps)"
  "max_x (foldl grow b ps) = foldl py_max (max_x b) (map fst ps)"
  "max_y (foldl grow b ps) = foldl py_max (max_y b) (map (fst \<circ> snd) ps)"
  "max_z (foldl grow b ps) = foldl py_max (max_z b) (map (snd \<circ> snd) ps)"
  by (induction ps arbitrary: b; simp add: grow_def split: prod.splits)+

lemma py_le_trans: "py_le a b \<Longrightarrow> py_le b c \<Longrightarrow> py_le a c"
  by (cases a; cases b; cases c) (auto simp: py_le_def py_eq_def)

lemma py_le_refl: "a \<noteq> NaN \<Longrightarrow> py_le a a"
  by (simp add: py_le_def py_eq_def)

lemma py_min_le: "a \<noteq> NaN \<Longrightarrow> py_le (py_min a x) a \<and> py_min a x \<noteq> NaN \<and> (x \<noteq> NaN \<longrightarrow> py_le (py_min a x) x)"
  by (cases a; cases x) (auto simp: py_le_def py_eq_def py_min_def)

lemma py_max_ge: "a \<noteq> NaN \<Longrightarrow> py_le a (py_max a x) \<and> py_max a x \<noteq> NaN \<and> (x \<noteq> NaN \<longrightarrow> py_le x (py_max a x))"
  by (cases a; cases x) (auto simp: py_le_def py_eq_def py_max_def)

lemma foldl_py_min_le:
  "a \<noteq> NaN \<Longrightarrow>
   py_le (foldl py_min a xs) a \<and> (\<forall>x \<in> set xs. x \<noteq> NaN \<longrightarrow> py_le (foldl py_min a xs) x)"
proof (induction xs arbitrary: a)
  case Nil
  then show ?case by (simp add: py_le_refl)
next
  case (Cons x xs)
  from py_min_le [OF Cons.prems, of x]
  have m: "py_le (py_min a x) a" "py_min a x \<noteq> NaN" "x \<noteq> NaN \<longrightarrow> py_le (py_min a x) x"
    by simp_all
  from Cons.IH [OF m(2)]
  have ih: "py_le (foldl py_min (py_min a x) xs) (py_min a x)"
    "\<forall>y \<in> set xs. y \<noteq> NaN \<longrightarrow> py_le (foldl py_min (py_min a x) xs) y"
    by simp_all
  from ih(1) m(1) have "py_le (foldl py_min (py_min a x) xs) a"
    by (rule py_le_trans)
  moreover from ih(1) m(3) have "x \<noteq> NaN \<longrightarrow> py_le (foldl py_min (py_min a x) xs) x"
    by (blast intro: py_le_trans)
  ultimately show ?case using ih(2) by simp
qed

lemma foldl_py_max_ge:
  "a \<noteq> NaN \<Longrightarrow>
   py_le a (foldl py_max a xs) \<and> (\<forall>x \<in> set xs. x \<noteq> NaN \<longrightarrow> py_le x (foldl py_max a xs))"
proof (induction xs arbitrary: a)
  case Nil
  then show ?case by (simp add: py_le_refl)
next
  case (Cons x xs)
  from py_max_ge [OF Cons.prems, of x]
  have m: "py_le a (py_max a x)" "py_max a x \<noteq> NaN" "x \<noteq> NaN \<longrightarrow> py_le x (py_max a x)"
    by simp_all
  from Cons.IH [OF m(2)]
  have ih: "py_le (py_max a x) (foldl py_max (py_max a x) xs)"
    "\<forall>y \<in> set xs. y \<noteq> NaN \<longrightarrow> py_le y (foldl py_max (py_max a x) xs)"
    by simp_all
  from m(1) ih(1) have "py_le a (foldl py_max (py_max a x) xs)"
    by (rule py_le_trans)
  moreover from m(3) ih(1) have "x \<noteq> NaN \<longrightarrow> py_le x (foldl py_max (py_max a x) xs)"
    by (blast intro: py_le_trans)
  ultimately show ?case using ih(2) by simp
qed

lemma foldl_py_min_attained:
  "foldl py_min a xs \<in> set xs \<or> foldl py_min a xs = a \<and> (\<forall>x \<in> set xs. \<not> py_lt x a)"
proof (induction xs arbitrary: a)
  case Nil then show ?case by simp
next
  case (Cons x xs)
  from Cons.IH [of "py_min a x"] show ?case
    by (auto simp: py_min_def split: if_splits)
qed

lemma foldl_py_max_attained:
  "foldl py_max a xs \<in> set xs \<or> foldl py_max a xs = a \<and> (\<forall>x \<in> set xs. \<not> py_lt a x)"
proof (induction xs arbitrary: a)
  case Nil then show ?case by simp
next
  case (Cons x xs)
  from Cons.IH [of "py_max a x"] show ?case
    by (auto simp: py_max_def split: if_splits)
qed

lemma not_lt_PInf: "\<not> py_lt x PInf \<Longrightarrow> x \<noteq> NaN \<Longrightarrow> x = PInf"
  by (cases x) auto

lemma not_gt_NInf: "\<not> py_lt NInf x \<Longrightarrow> x \<noteq> NaN \<Longrightarrow> x = NInf"
  by (cases x) auto

lemma min_from_PInf:
  assumes "x \<in> set xs" and "x \<noteq> NaN"
  shows "foldl py_min PInf xs \<in> set xs"
  using foldl_py_min_attained [of PInf xs] assms not_lt_PInf [of x]
  by auto

lemma max_from_NInf:
  assumes "x \<in> set xs" and "x \<noteq> NaN"
  shows "foldl py_max NInf xs \<in> set xs"
  using foldl_py_max_attained [of NInf xs] assms not_gt_NInf [of x]
  by auto

lemma convert_coordinates_Inr_D:
  assumes "convert_coordinates tris lat0 lon0 = Inr (converted, bnds)"
  shows "\<exists>ls lo. degrees_to_meters_converter lat0 = Inr (ls, lo) \<and>
     (\<forall>v \<in> set (concat tris). length v = 3) \<and>
     converted = map (\<lambda>tri. concat (map (\<lambda>v. flat3 (project lat0 lon0 ls lo (triple v))) tri)) tris \<and>
     bounds_min bnds = [foldl py_min PInf (map fst (projected tris lat0 lon0 ls lo)),
                        foldl py_min PInf (map (fst \<circ> snd) (projected tris lat0 lon0 ls lo)),
                        foldl py_min PInf (map (snd \<circ> snd) (projected tris lat0 lon0 ls lo))] \<and>
     bounds_max bnds = [foldl py_max NInf (map fst (projected tris lat0 lon0 ls lo)),
                        foldl py_max NInf (map (fst \<circ> snd) (projected tris lat0 lon0 ls lo)),
                        foldl py_max NInf (map (snd \<circ> snd) (projected tris lat0 lon0 ls lo))]"
proof -
  from assms obtain ls lo b where
    s: "degrees_to_meters_converter lat0 = Inr (ls, lo)" and
    c: "convert_triangles lat0 lon0 ls lo tris empty_box [] = Inr (b, converted)" and
    bn: "bnds = \<lparr>bounds_min = [min_x b, min_y b, min_z b], bounds_max = [max_x b, max_y b, max_z b]\<rparr>"
    by (auto simp: convert_coordinates_def split: sum.splits prod.splits)
  from c have
    v: "\<forall>v \<in> set (concat tris). length v = 3" and
    b: "b = foldl grow empty_box (projected tris lat0 lon0 ls lo)" and
    cv: "converted = map (\<lambda>tri. concat (map (\<lambda>v. flat3 (project lat0 lon0 ls lo (triple v))) tri)) tris"
    by (simp_all add: convert_triangles_Inr projected_def)
  from b bn have "bounds_min bnds = [foldl py_min PInf (map fst (projected tris lat0 lon0 ls lo)),
                        foldl py_min PInf (map (fst \<circ> snd) (projected tris lat0 lon0 ls lo)),
                        foldl py_min PInf (map (snd \<circ> snd) (projected tris lat0 lon0 ls lo))]"
    "bounds_max bnds = [foldl py_max NInf (map fst (projected tris lat0 lon0 ls lo)),
                        foldl py_max NInf (map (fst \<circ> snd) (projected tris lat0 lon0 ls lo)),
                        foldl py_max NInf (map (snd \<circ> snd) (projected tris lat0 lon0 ls lo))]"
    by (simp_all add: grow_fields empty_box_def)
  with s v cv show ?thesis by blast
qed

section \<open>The projection at the origin\<close>

lemma py_mul_bounded:
  assumes "\<bar>a\<bar> \<le> 2 powi i" and "\<bar>b\<bar> \<le> 2 powi j" and "- 1074 \<le> i + j" and "i + j \<le> 1023"
  shows "\<exists>r. py_mul (Fin a) (Fin b) = Fin r \<and> \<bar>r\<bar> \<le> 2 powi (i + j)"
proof -
  have "\<bar>a * b\<bar> \<le> 2 powi i * 2 powi j"
    unfolding abs_mult using assms(1,2) by (intro mult_mono) simp_all
  then have "\<bar>a * b\<bar> \<le> 2 powi (i + j)"
    by (simp add: powi2_split)
  from round_double_bounded [OF this assms(3,4)] show ?thesis
    by simp
qed

lemma py_add_bounded:
  assumes "\<bar>a\<bar> \<le> 2 powi i" and "\<bar>b\<bar> \<le> 2 powi i" and "- 1075 \<le> i" and "i \<le> 1022"
  shows "\<exists>r. py_add (Fin a) (Fin b) = Fin r \<and> \<bar>r\<bar> \<le> 2 powi (i + 1)"
proof -
  have "\<bar>a + b\<bar> \<le> 2 powi i + 2 powi i"
    using assms(1,2) by linarith
  also have "2 powi i + 2 powi i = (2::real) powi (i + 1)"
    by (simp add: powi2_split)
  finally have "\<bar>a + b\<bar> \<le> 2 powi (i + 1)" .
  from round_double_bounded [OF this] assms(3,4) show ?thesis
    by simp
qed

lemma py_sub_bounded:
  assumes "\<bar>a\<bar> \<le> 2 powi i" and "\<bar>b\<bar> \<le> 2 powi i" and "- 1075 \<le> i" and "i \<le> 1022"
  shows "\<exists>r. py_sub (Fin a) (Fin b) = Fin r \<and> \<bar>r\<bar> \<le> 2 powi (i + 1)"
  using py_add_bounded [of a i "- b"] assms by (simp add: py_sub_def)

lemma py_cos_bounded: "\<exists>c. py_cos (Fin a) = Inr (Fin c) \<and> \<bar>c\<bar> \<le> 2 powi 0"
proof -
  have "\<bar>cos a\<bar> \<le> 2 powi 0" by simp
  from round_double_bounded [OF this] show ?thesis by simp
qed

lemma degToRad_value: "degToRad = Fin (5030569068109113 / 288230376151711744)"
  by (simp add: degToRad_def Py_MATH_PI_def rd_examples)

lemma degToRad_bounded: "\<exists>c. degToRad = Fin c \<and> \<bar>c\<bar> \<le> 2 powi (- 5)"
  by (rule exI [of _ "5030569068109113 / 288230376151711744"]) (simp add: degToRad_value power_int_minus)

lemma scale_constants:
  "\<exists>k. round_double 111132.92 = Fin k \<and> \<bar>k\<bar> \<le> 2 powi 17"
  "\<exists>k. round_double 559.82 = Fin k \<and> \<bar>k\<bar> \<le> 2 powi 10"
  "\<exists>k. round_double 1.175 = Fin k \<and> \<bar>k\<bar> \<le> 2 powi 1"
  "\<exists>k. round_double 111412.84 = Fin k \<and> \<bar>k\<bar> \<le> 2 powi 17"
  "\<exists>k. round_double 93.5 = Fin k \<and> \<bar>k\<bar> \<le> 2 powi 7"
proof -
  show "\<exists>k. round_double 111132.92 = Fin k \<and> \<bar>k\<bar> \<le> 2 powi 17"
    by (rule exI [of _ "7636996110543749 / 68719476736"]) (simp add: rd_examples)
  show "\<exists>k. round_double 559.82 = Fin k \<and> \<bar>k\<bar> \<le> 2 powi 10"
    by (rule exI [of _ "4924228795692483 / 8796093022208"]) (simp add: rd_examples)
  show "\<exists>k. round_double 1.175 = Fin k \<and> \<bar>k\<bar> \<le> 2 powi 1"
    by (rule exI [of _ "5291729562160333 / 4503599627370496"]) (simp add: rd_examples)
  show "\<exists>k. round_double 111412.84 = Fin k \<and> \<bar>k\<bar> \<le> 2 powi 17"
    by (rule exI [of _ "3828116033235845 / 34359738368"]) (simp add: rd_examples)
  show "\<exists>k. round_double 93.5 = Fin k \<and> \<bar>k\<bar> \<le> 2 powi 7"
    by (rule exI [of _ "187 / 2"]) (simp add: rd_examples)
qed

lemma pow_widen: "\<bar>a\<bar> \<le> 2 powi i \<Longrightarrow> i \<le> j \<Longrightarrow> \<bar>a\<bar> \<le> (2::real) powi j"
  using powi2_le [of i j] by linarith

lemma scales_finite:
  assumes "\<bar>lat0\<bar> < 2 powi 1024"
  shows "\<exists>ls lo. degrees_to_meters_converter (Fin lat0) = Inr (Fin ls, Fin lo)"
proof -
  from degToRad_bounded obtain c where c: "degToRad = Fin c" "\<bar>c\<bar> \<le> 2 powi (- 5)"
    by blast
  have l: "\<bar>lat0\<bar> \<le> 2 powi 1024" using assms by simp
  from py_mul_bounded [OF l c(2)] obtain r where
    r: "py_mul (Fin lat0) (Fin c) = Fin r" "\<bar>r\<bar> \<le> 2 powi 1019"
    by auto
  have two: "\<bar>2::real\<bar> \<le> 2 powi 1" and four: "\<bar>4::real\<bar> \<le> 2 powi 2"
    and three: "\<bar>3::real\<bar> \<le> 2 powi 2"
    by simp_all
  from py_mul_bounded [OF two r(2)] obtain r2 where r2: "py_mul (Fin 2) (Fin r) = Fin r2"
    by auto
  from py_mul_bounded [OF four r(2)] obtain r4 where r4: "py_mul (Fin 4) (Fin r) = Fin r4"
    by auto
  from py_mul_bounded [OF three r(2)] obtain r3 where r3: "py_mul (Fin 3) (Fin r) = Fin r3"
    by auto
  from py_cos_bounded obtain c2 where c2: "py_cos (Fin r2) = Inr (Fin c2)" "\<bar>c2\<bar> \<le> 2 powi 0"
    by blast
  from py_cos_bounded obtain c4 where c4: "py_cos (Fin r4) = Inr (Fin c4)" "\<bar>c4\<bar> \<le> 2 powi 0"
    by blast
  from py_cos_bounded obtain c1 where c1: "py_cos (Fin r) = Inr (Fin c1)" "\<bar>c1\<bar> \<le> 2 powi 0"
    by blast
  from py_cos_bounded obtain c3 where c3: "py_cos (Fin r3) = Inr (Fin c3)" "\<bar>c3\<bar> \<le> 2 powi 0"
    by blast
  from scale_constants obtain k1 k2 k3 k4 k5 where
    k1: "round_double 111132.92 = Fin k1" "\<bar>k1\<bar> \<le> 2 powi 17" and
    k2: "round_double 559.82 = Fin k2" "\<bar>k2\<bar> \<le> 2 powi 10" and
    k3: "round_double 1.175 = Fin k3" "\<bar>k3\<bar> \<le> 2 powi 1" and
    k4: "round_double 111412.84 = Fin k4" "\<bar>k4\<bar> \<le> 2 powi 17" and
    k5: "round_double 93.5 = Fin k5" "\<bar>k5\<bar> \<le> 2 powi 7"
    by blast
  from py_mul_bounded [OF k2(2) c2(2)] obtain p2 where
    p2: "py_mul (Fin k2) (Fin c2) = Fin p2" "\<bar>p2\<bar> \<le> 2 powi 10"
    by auto
  from py_sub_bounded [OF k1(2) pow_widen [OF p2(2)]] obtain q where
    q: "py_sub (Fin k1) (Fin p2) = Fin q" "\<bar>q\<bar> \<le> 2 powi 18"
    by auto
  from py_mul_bounded [OF k3(2) c4(2)] obtain p3 where
    p3: "py_mul (Fin k3) (Fin c4) = Fin p3" "\<bar>p3\<bar> \<le> 2 powi 1"
    by auto
  from py_add_bounded [OF q(2) pow_widen [OF p3(2)]] obtain ls where
    ls: "py_add (Fin q) (Fin p3) = Fin ls"
    by auto
  from py_mul_bounded [OF k4(2) c1(2)] obtain p4 where
    p4: "py_mul (Fin k4) (Fin c1) = Fin p4" "\<bar>p4\<bar> \<le> 2 powi 17"
    by auto
  from py_mul_bounded [OF k5(2) c3(2)] obtain p5 where
    p5: "py_mul (Fin k5) (Fin c3) = Fin p5" "\<bar>p5\<bar> \<le> 2 powi 7"
    by auto
  from py_sub_bounded [OF p4(2) pow_widen [OF p5(2)]] obtain lo where
    lo: "py_sub (Fin p4) (Fin p5) = Fin lo"
    by auto
  have "degrees_to_meters_converter (Fin lat0) = Inr (Fin ls, Fin lo)"
    unfolding degrees_to_meters_converter_def radians_def Let_def c(1) r(1) r2 r4 r3
      k1(1) k2(1) k3(1) k4(1) k5(1)
    by (simp only: c2(1) c4(1) c1(1) c3(1) sum.case p2(1) q(1) p3(1) ls p4(1) p5(1) lo)
  then show ?thesis by blast
qed

lemma project_origin:
  "project (Fin lat0) (Fin lon0) (Fin ls) (Fin lo) (Fin lat0, Fin lon0, h) = (Fin 0, h, Fin 0)"
  by (simp add: project_def py_sub_def)

text \<open>
  C7 (amended). For a finite origin \<open>(lat0, lon0)\<close>, the latitude in the range of the
  finite floats, the scale factors are finite, and for every height \<open>h\<close> the vertex
  \<open>(lat0, lon0, h)\<close> projects to \<open>(0, h, 0)\<close>: as the assignments of the loop compute it,
  and as \<open>convert_coordinates\<close> returns it for a triangle with that vertex at its three
  corners.
\<close>

theorem origin_vertex_projects_to_zero:
  assumes "\<bar>lat0\<bar> < 2 powi 1024"
  shows "\<exists>ls lo bnds.
     degrees_to_meters_converter (Fin lat0) = Inr (Fin ls, Fin lo) \<and>
     project (Fin lat0) (Fin lon0) (Fin ls) (Fin lo) (Fin lat0, Fin lon0, h) = (Fin 0, h, Fin 0) \<and>
     convert_coordinates
        [[[Fin lat0, Fin lon0, h], [Fin lat0, Fin lon0, h], [Fin lat0, Fin lon0, h]]]
        (Fin lat0) (Fin lon0)
       = Inr ([[Fin 0, h, Fin 0, Fin 0, h, Fin 0, Fin 0, h, Fin 0]], bnds)"
proof -
  from scales_finite [OF assms] obtain ls lo where
    s: "degrees_to_meters_converter (Fin lat0) = Inr (Fin ls, Fin lo)"
    by blast
  then show ?thesis
    by (simp add: project_origin convert_coordinates_def)
qed

theorem origin_vertex_projects_to_zero_witness:
  "\<bar>0::real\<bar> < 2 powi 1024 \<and>
   degrees_to_meters_converter (Fin 0)
     = Inr (Fin (3799303159231283 / 34359738368), Fin (3824903397698437 / 34359738368)) \<and>
   (\<exists>ls lo bnds.
     degrees_to_meters_converter (Fin 0) = Inr (Fin ls, Fin lo) \<and>
     project (Fin 0) (Fin 1) (Fin ls) (Fin lo) (Fin 0, Fin 1, Fin 5) = (Fin 0, Fin 5, Fin 0) \<and>
     convert_coordinates
        [[[Fin 0, Fin 1, Fin 5], [Fin 0, Fin 1, Fin 5], [Fin 0, Fin 1, Fin 5]]] (Fin 0) (Fin 1)
       = Inr ([[Fin 0, Fin 5, Fin 0, Fin 0, Fin 5, Fin 0, Fin 0, Fin 5, Fin 0]], bnds))"
proof -
  have h: "\<bar>0::real\<bar> < 2 powi 1024" by simp
  from h scales_zero origin_vertex_projects_to_zero [OF h, of 1 "Fin 5"] show ?thesis
    by (intro conjI)
qed

text \<open>
  The three vertices of the ring have the longitude \<^verbatim>\<open>inf\<close>, so the origin has it too; the
  first vertex lies at the origin and its \<open>x\<close> is NaN.
\<close>

lemma tokens_inf: "floats_of (py_split ''0 inf 1 0 inf 2 0 inf 3'')
    = Inr [Fin 0, PInf, Fin 1, Fin 0, PInf, Fin 2, Fin 0, PInf, Fin 3]"
  by (simp add: float_simps split_simps)

lemma extract_inf: "extract_triangles (solid_doc [linear_ring ''0 inf 1 0 inf 2 0 inf 3''])
    = Inr [[[Fin 0, PInf, Fin 1], [Fin 0, PInf, Fin 2], [Fin 0, PInf, Fin 3]]]"
  using extract_solid_doc [of "[''0 inf 1 0 inf 2 0 inf 3'']"]
  by (simp add: parse_linear_ring_text tokens_inf tuple_eq_def py_eq_def polygon_to_triangles_def)

theorem infinite_origin_counterexample:
  "main world0 [gml ''a.gml'' (solid_doc [linear_ring ''0 inf 1 0 inf 2 0 inf 3''])] [''out'', ''mesh.json''] 12
   = (\<lparr>made_dirs = {[''out'']},
       files = [[''out'', ''mesh.json''] \<mapsto> Json
         \<lparr>origin_lat = Fin 0, origin_lon = PInf,
          triangles = [[NaN, Fin 1, Fin 0, NaN, Fin 2, Fin 0, NaN, Fin 3, Fin 0]],
          doc_bounds = \<lparr>bounds_min = [PInf, Fin 1, Fin 0], bounds_max = [NInf, Fin 3, Fin 0]\<rparr>,
          source_files = [''a.gml''],
          lat_scale_m_per_deg = Fin (3799303159231283 / 34359738368), lon_scale_m_per_deg = Fin (3824903397698437 / 34359738368)\<rparr>]\<rparr>, None) \<and>
   project (Fin 0) PInf (Fin (3799303159231283 / 34359738368)) (Fin (3824903397698437 / 34359738368)) (Fin 0, PInf, Fin 1) = (NaN, Fin 1, Fin 0) \<and>
   convert_coordinates [[[PInf, Fin 0, Fin 1], [PInf, Fin 0, Fin 1], [PInf, Fin 0, Fin 1]]] PInf (Fin 0)
     = Inl (ValueError MathDomain)"
proof (intro conjI)
  show "main world0 [gml ''a.gml'' (solid_doc [linear_ring ''0 inf 1 0 inf 2 0 inf 3''])] [''out'', ''mesh.json''] 12
   = (\<lparr>made_dirs = {[''out'']},
       files = [[''out'', ''mesh.json''] \<mapsto> Json
         \<lparr>origin_lat = Fin 0, origin_lon = PInf,
          triangles = [[NaN, Fin 1, Fin 0, NaN, Fin 2, Fin 0, NaN, Fin 3, Fin 0]],
          doc_bounds = \<lparr>bounds_min = [PInf, Fin 1, Fin 0], bounds_max = [NInf, Fin 3, Fin 0]\<rparr>,
          source_files = [''a.gml''],
          lat_scale_m_per_deg = Fin (3799303159231283 / 34359738368), lon_scale_m_per_deg = Fin (3824903397698437 / 34359738368)\<rparr>]\<rparr>, None)"
    by (simp add: run_simps extract_inf)
  show "project (Fin 0) PInf (Fin (3799303159231283 / 34359738368)) (Fin (3824903397698437 / 34359738368)) (Fin 0, PInf, Fin 1) = (NaN, Fin 1, Fin 0)"
    by (simp add: project_def py_sub_def)
  show "convert_coordinates [[[PInf, Fin 0, Fin 1], [PInf, Fin 0, Fin 1], [PInf, Fin 0, Fin 1]]] PInf (Fin 0)
     = Inl (ValueError MathDomain)"
    by (simp add: convert_coordinates_def degrees_to_meters_converter_def radians_def
        degToRad_def Py_MATH_PI_def rd_examples)
qed

section \<open>The bounding box\<close>

text \<open>
  C8 (amended). When \<open>convert_coordinates\<close> returns, its output holds the projected
  vertices in order, and on each axis: every projected coordinate that is not NaN lies
  between the box's minimum and maximum, and if some projected coordinate is not NaN then
  the minimum and the maximum are both the coordinate of a projected vertex.
\<close>

theorem bounding_box_of_projection:
  assumes "convert_coordinates tris lat0 lon0 = Inr (converted, bnds)"
  shows "\<exists>ls lo.
     degrees_to_meters_converter lat0 = Inr (ls, lo) \<and>
     converted = map (\<lambda>tri. concat (map (\<lambda>v. flat3 (project lat0 lon0 ls lo (triple v))) tri)) tris \<and>
     length (bounds_min bnds) = 3 \<and> length (bounds_max bnds) = 3 \<and>
     (\<forall>p \<in> set (projected tris lat0 lon0 ls lo).
        (fst p \<noteq> NaN \<longrightarrow>
           py_le (bounds_min bnds ! 0) (fst p) \<and> py_le (fst p) (bounds_max bnds ! 0)) \<and>
        (fst (snd p) \<noteq> NaN \<longrightarrow>
           py_le (bounds_min bnds ! 1) (fst (snd p)) \<and> py_le (fst (snd p)) (bounds_max bnds ! 1)) \<and>
        (snd (snd p) \<noteq> NaN \<longrightarrow>
           py_le (bounds_min bnds ! 2) (snd (snd p)) \<and> py_le (snd (snd p)) (bounds_max bnds ! 2))) \<and>
     ((\<exists>p \<in> set (projected tris lat0 lon0 ls lo). fst p \<noteq> NaN) \<longrightarrow>
        (\<exists>p \<in> set (projected tris lat0 lon0 ls lo). fst p = bounds_min bnds ! 0) \<and>
        (\<exists>p \<in> set (projected tris lat0 lon0 ls lo). fst p = bounds_max bnds ! 0)) \<and>
     ((\<exists>p \<in> set (projected tris lat0 lon0 ls lo). fst (snd p) \<noteq> NaN) \<longrightarrow>
        (\<exists>p \<in> set (projected tris lat0 lon0 ls lo). fst (snd p) = bounds_min bnds ! 1) \<and>
        (\<exists>p \<in> set (projected tris lat0 lon0 ls lo). fst (snd p) = bounds_max bnds ! 1)) \<and>
     ((\<exists>p \<in> set (projected tris lat0 lon0 ls lo). snd (snd p) \<noteq> NaN) \<longrightarrow>
        (\<exists>p \<in> set (projected tris lat0 lon0 ls lo). snd (snd p) = bounds_min bnds ! 2) \<and>
        (\<exists>p \<in> set (projected tris lat0 lon0 ls lo). snd (snd p) = bounds_max bnds ! 2))"
proof -
  from convert_coordinates_Inr_D [OF assms] obtain ls lo where
    s: "degrees_to_meters_converter lat0 = Inr (ls, lo)" and
    cv: "converted = map (\<lambda>tri. concat (map (\<lambda>v. flat3 (project lat0 lon0 ls lo (triple v))) tri)) tris" and
    mn: "bounds_min bnds = [foldl py_min PInf (map fst (projected tris lat0 lon0 ls lo)),
                        foldl py_min PInf (map (fst \<circ> snd) (projected tris lat0 lon0 ls lo)),
                        foldl py_min PInf (map (snd \<circ> snd) (projected tris lat0 lon0 ls lo))]" and
    mx: "bounds_max bnds = [foldl py_max NInf (map fst (projected tris lat0 lon0 ls lo)),
                        foldl py_max NInf (map (fst \<circ> snd) (projected tris lat0 lon0 ls lo)),
                        foldl py_max NInf (map (snd \<circ> snd) (projected tris lat0 lon0 ls lo))]"
    by blast
  let ?ps = "projected tris lat0 lon0 ls lo"
  have le: "g p \<noteq> NaN \<Longrightarrow>
      py_le (foldl py_min PInf (map g ?ps)) (g p) \<and> py_le (g p) (foldl py_max NInf (map g ?ps))"
    if "p \<in> set ?ps" for p and g :: "pyfloat \<times> pyfloat \<times> pyfloat \<Rightarrow> pyfloat"
  proof -
    assume n: "g p \<noteq> NaN"
    from that have "g p \<in> set (map g ?ps)" by simp
    with n foldl_py_min_le [of PInf "map g ?ps"] foldl_py_max_ge [of NInf "map g ?ps"]
    show ?thesis by blast
  qed
  have at: "(\<exists>p \<in> set ?ps. g p = foldl py_min PInf (map g ?ps)) \<and>
            (\<exists>p \<in> set ?ps. g p = foldl py_max NInf (map g ?ps))"
    if "\<exists>p \<in> set ?ps. g p \<noteq> NaN" for g :: "pyfloat \<times> pyfloat \<times> pyfloat \<Rightarrow> pyfloat"
  proof -
    from that obtain p where p: "p \<in> set ?ps" "g p \<noteq> NaN" by blast
    then have "g p \<in> set (map g ?ps)" by simp
    from min_from_PInf [OF this p(2)] max_from_NInf [OF this p(2)]
    show ?thesis by auto
  qed
  have bounds: "\<forall>p \<in> set ?ps.
        (fst p \<noteq> NaN \<longrightarrow>
           py_le (bounds_min bnds ! 0) (fst p) \<and> py_le (fst p) (bounds_max bnds ! 0)) \<and>
        (fst (snd p) \<noteq> NaN \<longrightarrow>
           py_le (bounds_min bnds ! 1) (fst (snd p)) \<and> py_le (fst (snd p)) (bounds_max bnds ! 1)) \<and>
        (snd (snd p) \<noteq> NaN \<longrightarrow>
           py_le (bounds_min bnds ! 2) (snd (snd p)) \<and> py_le (snd (snd p)) (bounds_max bnds ! 2))"
    using le [where g = fst] le [where g = "fst \<circ> snd"] le [where g = "snd \<circ> snd"]
    by (simp add: mn mx)
  have ax: "(\<exists>p \<in> set ?ps. fst p \<noteq> NaN) \<longrightarrow>
        (\<exists>p \<in> set ?ps. fst p = bounds_min bnds ! 0) \<and>
        (\<exists>p \<in> set ?ps. fst p = bounds_max bnds ! 0)"
    using at [where g = fst] by (simp add: mn mx)
  have ay: "(\<exists>p \<in> set ?ps. fst (snd p) \<noteq> NaN) \<longrightarrow>
        (\<exists>p \<in> set ?ps. fst (snd p) = bounds_min bnds ! 1) \<and>
        (\<exists>p \<in> set ?ps. fst (snd p) = bounds_max bnds ! 1)"
    using at [where g = "fst \<circ> snd"] by (simp add: mn mx)
  have az: "(\<exists>p \<in> set ?ps. snd (snd p) \<noteq> NaN) \<longrightarrow>
        (\<exists>p \<in> set ?ps. snd (snd p) = bounds_min bnds ! 2) \<and>
        (\<exists>p \<in> set ?ps. snd (snd p) = bounds_max bnds ! 2)"
    using at [where g = "snd \<circ> snd"] by (simp add: mn mx)
  have len: "length (bounds_min bnds) = 3" "length (bounds_max bnds) = 3"
    by (simp_all add: mn mx)
  from s cv len bounds ax ay az show ?thesis
    by blast
qed

lemma convert_tri:
  "convert_coordinates [[[Fin 0, Fin 0, Fin 0], [Fin 0, Fin 1, Fin 0], [Fin 0, Fin 1, Fin 5]]]
       (Fin 0) (Fin (6004799503160661 / 9007199254740992))
     = Inr ([[Fin (- (5099871196931249 / 68719476736)), Fin 0, Fin 0,
              Fin (2549935598465625 / 68719476736), Fin 0, Fin 0,
              Fin (2549935598465625 / 68719476736), Fin 5, Fin 0]],
            \<lparr>bounds_min = [Fin (- (5099871196931249 / 68719476736)), Fin 0, Fin 0],
             bounds_max = [Fin (2549935598465625 / 68719476736), Fin 5, Fin 0]\<rparr>)"
  by (simp add: run_simps)

theorem bounding_box_of_projection_witness:
  "convert_coordinates [[[Fin 0, Fin 0, Fin 0], [Fin 0, Fin 1, Fin 0], [Fin 0, Fin 1, Fin 5]]]
       (Fin 0) (Fin (6004799503160661 / 9007199254740992))
     = Inr ([[Fin (- (5099871196931249 / 68719476736)), Fin 0, Fin 0,
              Fin (2549935598465625 / 68719476736), Fin 0, Fin 0,
              Fin (2549935598465625 / 68719476736), Fin 5, Fin 0]],
            \<lparr>bounds_min = [Fin (- (5099871196931249 / 68719476736)), Fin 0, Fin 0],
             bounds_max = [Fin (2549935598465625 / 68719476736), Fin 5, Fin 0]\<rparr>) \<and>
   (\<exists>p \<in> set (projected [[[Fin 0, Fin 0, Fin 0], [Fin 0, Fin 1, Fin 0], [Fin 0, Fin 1, Fin 5]]]
                  (Fin 0) (Fin (6004799503160661 / 9007199254740992)) (Fin (3799303159231283 / 34359738368)) (Fin (3824903397698437 / 34359738368))). fst (snd p) \<noteq> NaN) \<and>
   (\<exists>p \<in> set (projected [[[Fin 0, Fin 0, Fin 0], [Fin 0, Fin 1, Fin 0], [Fin 0, Fin 1, Fin 5]]]
                  (Fin 0) (Fin (6004799503160661 / 9007199254740992)) (Fin (3799303159231283 / 34359738368)) (Fin (3824903397698437 / 34359738368))). fst (snd p) = Fin 0) \<and>
   (\<exists>p \<in> set (projected [[[Fin 0, Fin 0, Fin 0], [Fin 0, Fin 1, Fin 0], [Fin 0, Fin 1, Fin 5]]]
                  (Fin 0) (Fin (6004799503160661 / 9007199254740992)) (Fin (3799303159231283 / 34359738368)) (Fin (3824903397698437 / 34359738368))). fst (snd p) = Fin 5) \<and>
   py_le (Fin 0) (Fin 5)"
proof -
  let ?t = "[[[Fin 0, Fin 0, Fin 0], [Fin 0, Fin 1, Fin 0], [Fin 0, Fin 1, Fin 5]]]"
  let ?b = "\<lparr>bounds_min = [Fin (- (5099871196931249 / 68719476736)), Fin 0, Fin 0],
             bounds_max = [Fin (2549935598465625 / 68719476736), Fin 5, Fin 0]\<rparr>"
  let ?ps = "projected ?t (Fin 0) (Fin (6004799503160661 / 9007199254740992)) (Fin (3799303159231283 / 34359738368)) (Fin (3824903397698437 / 34359738368))"
  have ps: "?ps = [(Fin (- (5099871196931249 / 68719476736)), Fin 0, Fin 0),
                   (Fin (2549935598465625 / 68719476736), Fin 0, Fin 0),
                   (Fin (2549935598465625 / 68719476736), Fin 5, Fin 0)]"
    by (simp add: projected_def project_def triple_def py_sub_def rd_examples)
  have mem: "(Fin (2549935598465625 / 68719476736), Fin 5, Fin 0) \<in> set ?ps"
    unfolding ps by simp
  then have h: "\<exists>p \<in> set ?ps. fst (snd p) \<noteq> NaN"
    by force
  from bounding_box_of_projection [OF convert_tri] obtain ls lo where
    s: "degrees_to_meters_converter (Fin 0) = Inr (ls, lo)" and
    b: "\<forall>p \<in> set (projected ?t (Fin 0) (Fin (6004799503160661 / 9007199254740992)) ls lo).
          fst (snd p) \<noteq> NaN \<longrightarrow>
           py_le (bounds_min ?b ! 1) (fst (snd p)) \<and> py_le (fst (snd p)) (bounds_max ?b ! 1)" and
    a: "(\<exists>p \<in> set (projected ?t (Fin 0) (Fin (6004799503160661 / 9007199254740992)) ls lo). fst (snd p) \<noteq> NaN) \<longrightarrow>
        (\<exists>p \<in> set (projected ?t (Fin 0) (Fin (6004799503160661 / 9007199254740992)) ls lo). fst (snd p) = bounds_min ?b ! 1) \<and>
        (\<exists>p \<in> set (projected ?t (Fin 0) (Fin (6004799503160661 / 9007199254740992)) ls lo). fst (snd p) = bounds_max ?b ! 1)"
    by blast
  from s have sc: "ls = Fin (3799303159231283 / 34359738368)" "lo = Fin (3824903397698437 / 34359738368)"
    by (simp_all add: scales_zero)
  from a h have at: "(\<exists>p \<in> set ?ps. fst (snd p) = Fin 0) \<and> (\<exists>p \<in> set ?ps. fst (snd p) = Fin 5)"
    unfolding sc by simp
  from b mem have "py_le (Fin 0) (Fin 5)"
    unfolding sc by force
  with convert_tri h at show ?thesis
    by blast
qed

text \<open>
  Every height of the ring is \<^verbatim>\<open>NaN\<close>: the run succeeds, the box keeps the sentinels on the
  \<open>y\<close> axis (minimum \<open>+\<infinity>\<close> above maximum \<open>-\<infinity>\<close>), which no vertex attains, and no bound
  compares with the coordinate NaN.
\<close>

lemma tokens_nan_heights: "floats_of (py_split ''0 0 NaN 0 1 NaN 0 1 NaN'')
    = Inr [Fin 0, Fin 0, NaN, Fin 0, Fin 1, NaN, Fin 0, Fin 1, NaN]"
  by (simp add: float_simps split_simps)

lemma extract_nan_heights: "extract_triangles (solid_doc [linear_ring ''0 0 NaN 0 1 NaN 0 1 NaN''])
    = Inr [[[Fin 0, Fin 0, NaN], [Fin 0, Fin 1, NaN], [Fin 0, Fin 1, NaN]]]"
  using extract_solid_doc [of "[''0 0 NaN 0 1 NaN 0 1 NaN'']"]
  by (simp add: parse_linear_ring_text tokens_nan_heights tuple_eq_def py_eq_def polygon_to_triangles_def)

theorem nan_height_counterexample:
  "main world0 [gml ''a.gml'' (solid_doc [linear_ring ''0 0 NaN 0 1 NaN 0 1 NaN''])] [''out'', ''mesh.json''] 12
   = (\<lparr>made_dirs = {[''out'']},
       files = [[''out'', ''mesh.json''] \<mapsto> Json
         \<lparr>origin_lat = Fin 0, origin_lon = Fin (6004799503160661 / 9007199254740992),
          triangles = [[Fin (- (5099871196931249 / 68719476736)), NaN, Fin 0,
                        Fin (2549935598465625 / 68719476736), NaN, Fin 0,
                        Fin (2549935598465625 / 68719476736), NaN, Fin 0]],
          doc_bounds = \<lparr>bounds_min = [Fin (- (5099871196931249 / 68719476736)), PInf, Fin 0],
                        bounds_max = [Fin (2549935598465625 / 68719476736), NInf, Fin 0]\<rparr>,
          source_files = [''a.gml''],
          lat_scale_m_per_deg = Fin (3799303159231283 / 34359738368), lon_scale_m_per_deg = Fin (3824903397698437 / 34359738368)\<rparr>]\<rparr>, None) \<and>
   convert_coordinates [[[Fin 0, Fin 0, NaN], [Fin 0, Fin 1, NaN], [Fin 0, Fin 1, NaN]]]
       (Fin 0) (Fin (6004799503160661 / 9007199254740992))
     = Inr ([[Fin (- (5099871196931249 / 68719476736)), NaN, Fin 0,
              Fin (2549935598465625 / 68719476736), NaN, Fin 0,
              Fin (2549935598465625 / 68719476736), NaN, Fin 0]],
            \<lparr>bounds_min = [Fin (- (5099871196931249 / 68719476736)), PInf, Fin 0],
             bounds_max = [Fin (2549935598465625 / 68719476736), NInf, Fin 0]\<rparr>) \<and>
   \<not> py_le PInf NaN \<and> \<not> py_le NaN NInf \<and> \<not> py_le PInf NInf"
proof (intro conjI)
  show "main world0 [gml ''a.gml'' (solid_doc [linear_ring ''0 0 NaN 0 1 NaN 0 1 NaN''])] [''out'', ''mesh.json''] 12
   = (\<lparr>made_dirs = {[''out'']},
       files = [[''out'', ''mesh.json''] \<mapsto> Json
         \<lparr>origin_lat = Fin 0, origin_lon = Fin (6004799503160661 / 9007199254740992),
          triangles = [[Fin (- (5099871196931249 / 68719476736)), NaN, Fin 0,
                        Fin (2549935598465625 / 68719476736), NaN, Fin 0,
                        Fin (2549935598465625 / 68719476736), NaN, Fin 0]],
          doc_bounds = \<lparr>bounds_min = [Fin (- (5099871196931249 / 68719476736)), PInf, Fin 0],
                        bounds_max = [Fin (2549935598465625 / 68719476736), NInf, Fin 0]\<rparr>,
          source_files = [''a.gml''],
          lat_scale_m_per_deg = Fin (3799303159231283 / 34359738368), lon_scale_m_per_deg = Fin (3824903397698437 / 34359738368)\<rparr>]\<rparr>, None)"
    by (simp add: run_simps extract_nan_heights)
  show "convert_coordinates [[[Fin 0, Fin 0, NaN], [Fin 0, Fin 1, NaN], [Fin 0, Fin 1, NaN]]]
       (Fin 0) (Fin (6004799503160661 / 9007199254740992))
     = Inr ([[Fin (- (5099871196931249 / 68719476736)), NaN, Fin 0,
              Fin (2549935598465625 / 68719476736), NaN, Fin 0,
              Fin (2549935598465625 / 68719476736), NaN, Fin 0]],
            \<lparr>bounds_min = [Fin (- (5099871196931249 / 68719476736)), PInf, Fin 0],
             bounds_max = [Fin (2549935598465625 / 68719476736), NInf, Fin 0]\<rparr>)"
    by (simp add: run_simps)
qed (simp_all add: py_le_def py_eq_def)

section \<open>The closing vertex\<close>

text \<open>
  C3 (amended). For a ring that decodes to at least two tuples of which the first and the
  last are equal, the parser returns the decoded tuples without the last one (and removes
  no other). This is also what it returns on a ring that decodes to those shorter tuples,
  unless the shorter ring closes on itself again.
\<close>

theorem closing_vertex_removed:
  assumes "pos_text ring = Some s" and "floats_of (py_split s) = Inr raw"
    and "1 < length (chunks raw 3)"
    and "tuple_eq (hd (chunks raw 3)) (last (chunks raw 3))"
  shows "parse_linear_ring ring = Inr (butlast (chunks raw 3)) \<and>
         (\<forall>ring' s' raw'.
            pos_text ring' = Some s' \<and> floats_of (py_split s') = Inr raw' \<and>
            chunks raw' 3 = butlast (chunks raw 3) \<and>
            \<not> (1 < length (chunks raw' 3) \<and> tuple_eq (hd (chunks raw' 3)) (last (chunks raw' 3)))
            \<longrightarrow> parse_linear_ring ring' = parse_linear_ring ring)"
proof (intro conjI allI impI)
  show p: "parse_linear_ring ring = Inr (butlast (chunks raw 3))"
    using assms by (simp add: parse_linear_ring_text)
  fix ring' s' raw'
  assume a: "pos_text ring' = Some s' \<and> floats_of (py_split s') = Inr raw' \<and>
            chunks raw' 3 = butlast (chunks raw 3) \<and>
            \<not> (1 < length (chunks raw' 3) \<and> tuple_eq (hd (chunks raw' 3)) (last (chunks raw' 3)))"
  then have "parse_linear_ring ring' = Inr (chunks raw' 3)"
    by (auto simp: parse_linear_ring_text)
  with a p show "parse_linear_ring ring' = parse_linear_ring ring"
    by simp
qed

lemma tokens_tri_open: "floats_of (py_split ''0 0 0 0 1 0 0 1 5'')
    = Inr [Fin 0, Fin 0, Fin 0, Fin 0, Fin 1, Fin 0, Fin 0, Fin 1, Fin 5]"
  by (simp add: float_simps split_simps)

theorem closing_vertex_removed_witness:
  "pos_text (linear_ring ''0 0 0 0 1 0 0 1 5 0 0 0'') = Some ''0 0 0 0 1 0 0 1 5 0 0 0'' \<and>
   floats_of (py_split ''0 0 0 0 1 0 0 1 5 0 0 0'')
     = Inr [Fin 0, Fin 0, Fin 0, Fin 0, Fin 1, Fin 0, Fin 0, Fin 1, Fin 5, Fin 0, Fin 0, Fin 0] \<and>
   chunks [Fin 0, Fin 0, Fin 0, Fin 0, Fin 1, Fin 0, Fin 0, Fin 1, Fin 5, Fin 0, Fin 0, Fin 0] 3
     = [[Fin 0, Fin 0, Fin 0], [Fin 0, Fin 1, Fin 0], [Fin 0, Fin 1, Fin 5], [Fin 0, Fin 0, Fin 0]] \<and>
   tuple_eq [Fin 0, Fin 0, Fin 0] [Fin 0, Fin 0, Fin 0] \<and>
   parse_linear_ring (linear_ring ''0 0 0 0 1 0 0 1 5 0 0 0'')
     = Inr [[Fin 0, Fin 0, Fin 0], [Fin 0, Fin 1, Fin 0], [Fin 0, Fin 1, Fin 5]] \<and>
   parse_linear_ring (linear_ring ''0 0 0 0 1 0 0 1 5'')
     = parse_linear_ring (linear_ring ''0 0 0 0 1 0 0 1 5 0 0 0'')"
proof -
  let ?raw = "[Fin 0, Fin 0, Fin 0, Fin 0, Fin 1, Fin 0, Fin 0, Fin 1, Fin 5, Fin 0, Fin 0, Fin 0]"
  let ?raw' = "[Fin 0, Fin 0, Fin 0, Fin 0, Fin 1, Fin 0, Fin 0, Fin 1, Fin 5]"
  have h1: "pos_text (linear_ring ''0 0 0 0 1 0 0 1 5 0 0 0'') = Some ''0 0 0 0 1 0 0 1 5 0 0 0''"
    by simp
  have c: "chunks ?raw 3
     = [[Fin 0, Fin 0, Fin 0], [Fin 0, Fin 1, Fin 0], [Fin 0, Fin 1, Fin 5], [Fin 0, Fin 0, Fin 0]]"
    by simp
  have c': "chunks ?raw' 3 = [[Fin 0, Fin 0, Fin 0], [Fin 0, Fin 1, Fin 0], [Fin 0, Fin 1, Fin 5]]"
    by simp
  have e: "tuple_eq [Fin 0, Fin 0, Fin 0] [Fin 0, Fin 0, Fin 0]"
    by (simp add: tuple_eq_def py_eq_def)
  have h3: "1 < length (chunks ?raw 3)" by (simp add: c)
  have h4: "tuple_eq (hd (chunks ?raw 3)) (last (chunks ?raw 3))" using e by (simp add: c)
  note inst = closing_vertex_removed [OF h1 tokens_tri h3 h4]
  from inst have r1: "parse_linear_ring (linear_ring ''0 0 0 0 1 0 0 1 5 0 0 0'')
     = Inr [[Fin 0, Fin 0, Fin 0], [Fin 0, Fin 1, Fin 0], [Fin 0, Fin 1, Fin 5]]"
    by (simp add: c)
  have g: "pos_text (linear_ring ''0 0 0 0 1 0 0 1 5'') = Some ''0 0 0 0 1 0 0 1 5'' \<and>
      floats_of (py_split ''0 0 0 0 1 0 0 1 5'') = Inr ?raw' \<and>
      chunks ?raw' 3 = butlast (chunks ?raw 3) \<and>
      \<not> (1 < length (chunks ?raw' 3) \<and> tuple_eq (hd (chunks ?raw' 3)) (last (chunks ?raw' 3)))"
    by (simp add: tokens_tri_open c c' tuple_eq_def py_eq_def)
  from inst g have r2: "parse_linear_ring (linear_ring ''0 0 0 0 1 0 0 1 5'')
     = parse_linear_ring (linear_ring ''0 0 0 0 1 0 0 1 5 0 0 0'')"
    by blast
  from h1 tokens_tri c e r1 r2 show ?thesis
    by blast
qed

text \<open>
  The tuples are compared as floats, after \<^verbatim>\<open>float()\<close> has rounded the literals: the
  literals \<^verbatim>\<open>0.1\<close> and \<^verbatim>\<open>0.10000000000000001\<close> are the same double, and \<^verbatim>\<open>1e-324\<close>
  underflows to zero, so both rings below close on themselves.
\<close>

lemma tokens_tenth: "floats_of (py_split ''0.1 0 0 0.10000000000000001 0 0'')
    = Inr [Fin (3602879701896397 / 36028797018963968), Fin 0, Fin 0,
           Fin (3602879701896397 / 36028797018963968), Fin 0, Fin 0]"
  by (simp add: float_simps split_simps rd_examples)

lemma tokens_tiny: "floats_of (py_split ''1e-324 0 0 1 1 1 0 0 0'')
    = Inr [Fin 0, Fin 0, Fin 0, Fin 1, Fin 1, Fin 1, Fin 0, Fin 0, Fin 0]"
  by (simp add: float_simps split_simps power_int_minus rd_22)

lemma rounded_literals_close_ring:
  "parse_linear_ring (linear_ring ''0.1 0 0 0.10000000000000001 0 0'')
     = Inr [[Fin (3602879701896397 / 36028797018963968), Fin 0, Fin 0]]"
  "parse_linear_ring (linear_ring ''1e-324 0 0 1 1 1 0 0 0'')
     = Inr [[Fin 0, Fin 0, Fin 0], [Fin 1, Fin 1, Fin 1]]"
  by (simp_all add: parse_linear_ring_text tokens_tenth tokens_tiny tuple_eq_def py_eq_def)

text \<open>
  A ring of the single tuple \<open>(1, 2, 3)\<close>: its first and last tuple are the same, the parser
  returns it unchanged, and the ring without that tuple parses to the empty ring. A ring of
  three equal tuples loses one of them, the ring of two loses another.
\<close>

lemma tokens_123:
  "floats_of (py_split ''1 2 3'') = Inr [Fin 1, Fin 2, Fin 3]"
  "floats_of (py_split ''1 2 3 1 2 3'') = Inr [Fin 1, Fin 2, Fin 3, Fin 1, Fin 2, Fin 3]"
  "floats_of (py_split ''1 2 3 1 2 3 1 2 3'')
     = Inr [Fin 1, Fin 2, Fin 3, Fin 1, Fin 2, Fin 3, Fin 1, Fin 2, Fin 3]"
  by (simp_all add: float_simps split_simps)

theorem single_tuple_ring_counterexample:
  "floats_of (py_split ''1 2 3'') = Inr [Fin 1, Fin 2, Fin 3] \<and>
   chunks [Fin 1, Fin 2, Fin 3] 3 = [[Fin 1, Fin 2, Fin 3]] \<and>
   tuple_eq (hd [[Fin 1, Fin 2, Fin 3]]) (last [[Fin 1, Fin 2, Fin 3]]) \<and>
   parse_linear_ring (linear_ring ''1 2 3'') = Inr [[Fin 1, Fin 2, Fin 3]] \<and>
   parse_linear_ring (linear_ring []) = Inr [] \<and>
   parse_linear_ring (linear_ring ''1 2 3 1 2 3 1 2 3'')
     = Inr [[Fin 1, Fin 2, Fin 3], [Fin 1, Fin 2, Fin 3]] \<and>
   parse_linear_ring (linear_ring ''1 2 3 1 2 3'') = Inr [[Fin 1, Fin 2, Fin 3]]"
  by (simp add: parse_linear_ring_text tokens_123 tuple_eq_def py_eq_def)
     (simp add: py_split_def)

section \<open>Coordinate lists that are not made of triples\<close>

lemma hd_in_butlast: "1 < length xs \<Longrightarrow> hd xs \<in> set (butlast xs)"
  by (cases xs) auto

lemma in_set_butlast_or_last:
  "v \<in> set xs \<Longrightarrow> v \<in> set (butlast xs) \<or> v = last xs"
  by (induction xs) auto

lemma chunks_all_full:
  assumes "3 dvd length raw" and "v \<in> set (chunks raw 3)"
  shows "length v = 3"
proof -
  from assms(2) have ne: "raw \<noteq> []"
    by auto
  from in_set_butlast_or_last [OF assms(2)] show ?thesis
  proof
    assume "v \<in> set (butlast (chunks raw 3))"
    then show ?thesis using chunks_butlast_full [of 3 v raw] by simp
  next
    assume "v = last (chunks raw 3)"
    then show ?thesis using chunks_last_length [of 3 raw] ne assms(1) by simp
  qed
qed

lemma incomplete_not_closed:
  assumes "\<not> 3 dvd length raw"
  shows "\<not> (1 < length (chunks raw 3) \<and> tuple_eq (hd (chunks raw 3)) (last (chunks raw 3)))"
proof
  assume a: "1 < length (chunks raw 3) \<and> tuple_eq (hd (chunks raw 3)) (last (chunks raw 3))"
  then have "hd (chunks raw 3) \<in> set (butlast (chunks raw 3))"
    by (simp add: hd_in_butlast)
  then have h: "length (hd (chunks raw 3)) = 3"
    using chunks_butlast_full [of 3 _ raw] by simp
  from assms have "raw \<noteq> []" by auto
  with assms have "length (last (chunks raw 3)) = length raw mod 3"
    using chunks_last_length [of 3 raw] by simp
  then have "length (last (chunks raw 3)) < 3" by simp
  with a h show False by (simp add: tuple_eq_def)
qed

lemma chunk_count_step: "0 < (n::nat) \<Longrightarrow> Suc ((n - 3 + 2) div 3) = (n + 2) div 3"
  by presburger

lemma length_chunks3: "length (chunks xs 3) = (length xs + 2) div 3"
proof (induction "length xs" arbitrary: xs rule: less_induct)
  case less
  show ?case
  proof (cases "xs = []")
    case True
    then show ?thesis by simp
  next
    case False
    then have c: "chunks xs 3 = take 3 xs # chunks (drop 3 xs) 3"
      by (simp add: chunks_step)
    have "length (drop 3 xs) < length xs" using False by simp
    then have "length (chunks (drop 3 xs) 3) = (length (drop 3 xs) + 2) div 3"
      by (rule less)
    then have "length (chunks xs 3) = Suc ((length xs - 3 + 2) div 3)"
      using c by simp
    moreover have "0 < length xs" using False by simp
    ultimately show ?thesis using chunk_count_step by simp
  qed
qed

lemma sample_triangles_error:
  assumes "v \<in> set (concat tris)" and "length v \<noteq> 3"
  shows "\<exists>ve. sample_triangles tris lats lons = Inl (ValueError ve)"
proof (cases "sample_triangles tris lats lons")
  case (Inl e)
  from sample_triangles_error_form [OF Inl] Inl show ?thesis by auto
next
  case (Inr p)
  obtain l1 l2 where "p = (l1, l2)" by (cases p)
  with Inr have "\<forall>v \<in> set (concat tris). length v = 3"
    by (simp add: sample_triangles_Inr)
  with assms show ?thesis by blast
qed

lemma last_in_last_triangle:
  assumes "3 \<le> length coords"
  shows "last coords \<in> set (concat (polygon_to_triangles coords))"
proof -
  define n where "n = length coords"
  have n3: "3 \<le> n" using assms by (simp add: n_def)
  have ne: "coords \<noteq> []" using assms by auto
  have i: "1 \<le> n - 2" "n - 2 \<le> length coords - 2" using n3 by (simp_all add: n_def)
  from polygon_to_triangles_nth [OF i assms]
  have t: "polygon_to_triangles coords ! (n - 2 - 1) = [coords ! 0, coords ! (n - 2), coords ! (n - 2 + 1)]" .
  have e1: "n - 2 + 1 = n - 1" using n3 by arith
  have e2: "n - 2 - 1 = n - 3" by arith
  have l: "last coords = coords ! (n - 1)"
    using ne by (simp add: last_conv_nth n_def)
  from t have t': "polygon_to_triangles coords ! (n - 3) = [coords ! 0, coords ! (n - 2), last coords]"
    unfolding e1 e2 l .
  have "n - 3 < length (polygon_to_triangles coords)"
    using n3 by (simp add: polygon_to_triangles_length n_def)
  then have "polygon_to_triangles coords ! (n - 3) \<in> set (polygon_to_triangles coords)"
    by (rule nth_mem)
  then have m: "[coords ! 0, coords ! (n - 2), last coords] \<in> set (polygon_to_triangles coords)"
    unfolding t' .
  have "last coords \<in> set [coords ! 0, coords ! (n - 2), last coords]"
    by simp
  with m show ?thesis
    unfolding set_concat by blast
qed

text \<open>
  C10 (amended). For a coordinate list of float tokens whose number is not a multiple of 3
  the parser raises nothing: it returns the tuples cut by \<open>chunked\<close>, all of three
  components but the last, which holds the one or two leftover values. The loops over the
  vertices of a triangle unpack three values from each vertex and raise on a triangle that
  holds this tuple. With seven tokens or more the tuple is a corner of the ring's last
  triangle, and sampling the ring's triangles raises; with fewer the ring has no triangle
  and the tuple goes no further. The vertices of a parsed ring all have three components
  exactly when the number of tokens is a multiple of 3.
\<close>

theorem incomplete_last_tuple:
  assumes "pos_text ring = Some s" and "floats_of (py_split s) = Inr raw"
  shows "\<exists>coords.
     parse_linear_ring ring = Inr coords \<and>
     (\<not> 3 dvd length (py_split s) \<longrightarrow>
        coords = chunks raw 3 \<and> coords \<noteq> [] \<and>
        length (last coords) = length (py_split s) mod 3 \<and>
        0 < length (last coords) \<and> length (last coords) < 3 \<and>
        (\<forall>v \<in> set (butlast coords). length v = 3) \<and>
        (\<forall>tri lats lons. last coords \<in> set tri
           \<longrightarrow> (\<exists>ve. sample_vertices tri lats lons = Inl (ValueError ve))) \<and>
        (\<forall>tri lat0 lon0 lat_scale lon_scale b flat. last coords \<in> set tri
           \<longrightarrow> (\<exists>ve. convert_vertices lat0 lon0 lat_scale lon_scale tri b flat = Inl (ValueError ve))) \<and>
        (length (py_split s) < 7 \<longrightarrow> polygon_to_triangles coords = []) \<and>
        (7 \<le> length (py_split s) \<longrightarrow>
           last coords \<in> set (concat (polygon_to_triangles coords)) \<and>
           (\<forall>lats lons. \<exists>ve.
              sample_triangles (polygon_to_triangles coords) lats lons = Inl (ValueError ve)))) \<and>
     ((\<forall>v \<in> set coords. length v = 3) \<longleftrightarrow> 3 dvd length (py_split s))"
proof -
  have n: "length raw = length (py_split s)"
    using assms(2) by (rule floats_of_length)
  show ?thesis
  proof (cases "3 dvd length raw")
    case True
    define coords where "coords =
      (if 1 < length (chunks raw 3) \<and> tuple_eq (hd (chunks raw 3)) (last (chunks raw 3))
       then butlast (chunks raw 3) else chunks raw 3)"
    have p: "parse_linear_ring ring = Inr coords"
      using assms by (simp add: parse_linear_ring_text coords_def)
    have "set coords \<subseteq> set (chunks raw 3)"
      by (auto simp: coords_def dest: in_set_butlastD)
    then have f: "\<forall>v \<in> set coords. length v = 3"
      using chunks_all_full [OF True] by blast
    have d: "3 dvd length (py_split s)"
      using True n by simp
    have "parse_linear_ring ring = Inr coords \<and>
     (\<not> 3 dvd length (py_split s) \<longrightarrow>
        coords = chunks raw 3 \<and> coords \<noteq> [] \<and>
        length (last coords) = length (py_split s) mod 3 \<and>
        0 < length (last coords) \<and> length (last coords) < 3 \<and>
        (\<forall>v \<in> set (butlast coords). length v = 3) \<and>
        (\<forall>tri lats lons. last coords \<in> set tri
           \<longrightarrow> (\<exists>ve. sample_vertices tri lats lons = Inl (ValueError ve))) \<and>
        (\<forall>tri lat0 lon0 lat_scale lon_scale b flat. last coords \<in> set tri
           \<longrightarrow> (\<exists>ve. convert_vertices lat0 lon0 lat_scale lon_scale tri b flat = Inl (ValueError ve))) \<and>
        (length (py_split s) < 7 \<longrightarrow> polygon_to_triangles coords = []) \<and>
        (7 \<le> length (py_split s) \<longrightarrow>
           last coords \<in> set (concat (polygon_to_triangles coords)) \<and>
           (\<forall>lats lons. \<exists>ve.
              sample_triangles (polygon_to_triangles coords) lats lons = Inl (ValueError ve)))) \<and>
     ((\<forall>v \<in> set coords. length v = 3) \<longleftrightarrow> 3 dvd length (py_split s))"
    proof (intro conjI)
      show "parse_linear_ring ring = Inr coords" by (rule p)
      show "(\<forall>v \<in> set coords. length v = 3) \<longleftrightarrow> 3 dvd length (py_split s)"
        using f d by blast
    next
      show "\<not> 3 dvd length (py_split s) \<longrightarrow>
        coords = chunks raw 3 \<and> coords \<noteq> [] \<and>
        length (last coords) = length (py_split s) mod 3 \<and>
        0 < length (last coords) \<and> length (last coords) < 3 \<and>
        (\<forall>v \<in> set (butlast coords). length v = 3) \<and>
        (\<forall>tri lats lons. last coords \<in> set tri
           \<longrightarrow> (\<exists>ve. sample_vertices tri lats lons = Inl (ValueError ve))) \<and>
        (\<forall>tri lat0 lon0 lat_scale lon_scale b flat. last coords \<in> set tri
           \<longrightarrow> (\<exists>ve. convert_vertices lat0 lon0 lat_scale lon_scale tri b flat = Inl (ValueError ve))) \<and>
        (length (py_split s) < 7 \<longrightarrow> polygon_to_triangles coords = []) \<and>
        (7 \<le> length (py_split s) \<longrightarrow>
           last coords \<in> set (concat (polygon_to_triangles coords)) \<and>
           (\<forall>lats lons. \<exists>ve.
              sample_triangles (polygon_to_triangles coords) lats lons = Inl (ValueError ve)))"
      proof
        assume nd: "\<not> 3 dvd length (py_split s)"
        from nd d show "coords = chunks raw 3 \<and> coords \<noteq> [] \<and>
        length (last coords) = length (py_split s) mod 3 \<and>
        0 < length (last coords) \<and> length (last coords) < 3 \<and>
        (\<forall>v \<in> set (butlast coords). length v = 3) \<and>
        (\<forall>tri lats lons. last coords \<in> set tri
           \<longrightarrow> (\<exists>ve. sample_vertices tri lats lons = Inl (ValueError ve))) \<and>
        (\<forall>tri lat0 lon0 lat_scale lon_scale b flat. last coords \<in> set tri
           \<longrightarrow> (\<exists>ve. convert_vertices lat0 lon0 lat_scale lon_scale tri b flat = Inl (ValueError ve))) \<and>
        (length (py_split s) < 7 \<longrightarrow> polygon_to_triangles coords = []) \<and>
        (7 \<le> length (py_split s) \<longrightarrow>
           last coords \<in> set (concat (polygon_to_triangles coords)) \<and>
           (\<forall>lats lons. \<exists>ve.
              sample_triangles (polygon_to_triangles coords) lats lons = Inl (ValueError ve)))"
          by (rule notE)
      qed
    qed
    then show ?thesis by (rule exI)
  next
    case False
    define coords where "coords = chunks raw 3"
    from False have ne: "raw \<noteq> []" by auto
    have p: "parse_linear_ring ring = Inr coords"
      using assms incomplete_not_closed [OF False]
      by (auto simp: parse_linear_ring_text coords_def)
    have c0: "coords = chunks raw 3"
      by (rule coords_def)
    have c1: "coords \<noteq> []"
      using ne by (simp add: coords_def chunks_eq_Nil)
    have c2: "length (last coords) = length (py_split s) mod 3"
      using chunks_last_length [of 3 raw] ne False n by (simp add: coords_def)
    have nd: "\<not> 3 dvd length (py_split s)"
      using False n by simp
    then have "length (py_split s) mod 3 \<noteq> 0"
      by (simp add: dvd_eq_mod_eq_0)
    then have c3: "0 < length (last coords)" "length (last coords) < 3"
      using c2 by simp_all
    have c4: "\<forall>v \<in> set (butlast coords). length v = 3"
      using chunks_butlast_full [of 3 _ raw] by (simp add: coords_def)
    have l: "length (last coords) \<noteq> 3"
      using c3 by simp
    have c5: "\<forall>tri lats lons. last coords \<in> set tri
           \<longrightarrow> (\<exists>ve. sample_vertices tri lats lons = Inl (ValueError ve))"
      using sample_vertices_error [OF _ l] by blast
    have c6: "\<forall>tri lat0 lon0 lat_scale lon_scale b flat. last coords \<in> set tri
           \<longrightarrow> (\<exists>ve. convert_vertices lat0 lon0 lat_scale lon_scale tri b flat = Inl (ValueError ve))"
      using convert_vertices_error [OF _ l] by blast
    have "last coords \<in> set coords"
      using c1 by simp
    with l have c7: "\<not> (\<forall>v \<in> set coords. length v = 3)"
      by blast
    have len: "length coords = (length (py_split s) + 2) div 3"
      by (simp add: coords_def length_chunks3 n)
    have c8: "length (py_split s) < 7 \<longrightarrow> polygon_to_triangles coords = []"
    proof
      assume "length (py_split s) < 7"
      then have "length coords < 3" unfolding len by arith
      then show "polygon_to_triangles coords = []"
        by (simp add: polygon_to_triangles_def)
    qed
    have c9: "7 \<le> length (py_split s) \<longrightarrow>
           last coords \<in> set (concat (polygon_to_triangles coords)) \<and>
           (\<forall>lats lons. \<exists>ve.
              sample_triangles (polygon_to_triangles coords) lats lons = Inl (ValueError ve))"
    proof
      assume "7 \<le> length (py_split s)"
      then have "3 \<le> length coords" unfolding len by arith
      then have m: "last coords \<in> set (concat (polygon_to_triangles coords))"
        by (rule last_in_last_triangle)
      from sample_triangles_error [OF m l]
      have "\<forall>lats lons. \<exists>ve.
              sample_triangles (polygon_to_triangles coords) lats lons = Inl (ValueError ve)"
        by blast
      with m show "last coords \<in> set (concat (polygon_to_triangles coords)) \<and>
           (\<forall>lats lons. \<exists>ve.
              sample_triangles (polygon_to_triangles coords) lats lons = Inl (ValueError ve))"
        by (rule conjI)
    qed
    have "parse_linear_ring ring = Inr coords \<and>
     (\<not> 3 dvd length (py_split s) \<longrightarrow>
        coords = chunks raw 3 \<and> coords \<noteq> [] \<and>
        length (last coords) = length (py_split s) mod 3 \<and>
        0 < length (last coords) \<and> length (last coords) < 3 \<and>
        (\<forall>v \<in> set (butlast coords). length v = 3) \<and>
        (\<forall>tri lats lons. last coords \<in> set tri
           \<longrightarrow> (\<exists>ve. sample_vertices tri lats lons = Inl (ValueError ve))) \<and>
        (\<forall>tri lat0 lon0 lat_scale lon_scale b flat. last coords \<in> set tri
           \<longrightarrow> (\<exists>ve. convert_vertices lat0 lon0 lat_scale lon_scale tri b flat = Inl (ValueError ve))) \<and>
        (length (py_split s) < 7 \<longrightarrow> polygon_to_triangles coords = []) \<and>
        (7 \<le> length (py_split s) \<longrightarrow>
           last coords \<in> set (concat (polygon_to_triangles coords)) \<and>
           (\<forall>lats lons. \<exists>ve.
              sample_triangles (polygon_to_triangles coords) lats lons = Inl (ValueError ve)))) \<and>
     ((\<forall>v \<in> set coords. length v = 3) \<longleftrightarrow> 3 dvd length (py_split s))"
    proof (intro conjI impI)
      show "parse_linear_ring ring = Inr coords" by (rule p)
      show "coords = chunks raw 3" by (rule c0)
      show "coords \<noteq> []" by (rule c1)
      show "length (last coords) = length (py_split s) mod 3" by (rule c2)
      show "0 < length (last coords)" by (rule c3(1))
      show "length (last coords) < 3" by (rule c3(2))
      show "\<forall>v \<in> set (butlast coords). length v = 3" by (rule c4)
      show "\<forall>tri lats lons. last coords \<in> set tri
           \<longrightarrow> (\<exists>ve. sample_vertices tri lats lons = Inl (ValueError ve))" by (rule c5)
      show "\<forall>tri lat0 lon0 lat_scale lon_scale b flat. last coords \<in> set tri
           \<longrightarrow> (\<exists>ve. convert_vertices lat0 lon0 lat_scale lon_scale tri b flat = Inl (ValueError ve))"
        by (rule c6)
      show "(\<forall>v \<in> set coords. length v = 3) \<longleftrightarrow> 3 dvd length (py_split s)"
        using c7 nd by blast
    next
      assume "length (py_split s) < 7"
      with c8 show "polygon_to_triangles coords = []" by blast
    next
      assume a: "7 \<le> length (py_split s)"
      with c9 show "last coords \<in> set (concat (polygon_to_triangles coords))" by blast
      from a c9 show "\<forall>lats lons. \<exists>ve.
              sample_triangles (polygon_to_triangles coords) lats lons = Inl (ValueError ve)"
        by blast
    qed
    then show ?thesis by (rule exI)
  qed
qed

lemma tokens_seven: "floats_of (py_split ''1 2 3 4 5 6 7'')
    = Inr [Fin 1, Fin 2, Fin 3, Fin 4, Fin 5, Fin 6, Fin 7]"
  by (simp add: float_simps split_simps)

lemma split_seven: "length (py_split ''1 2 3 4 5 6 7'') = 7"
  by (simp add: split_simps)

lemma extract_seven: "extract_triangles (solid_doc [linear_ring ''1 2 3 4 5 6 7''])
    = Inr [[[Fin 1, Fin 2, Fin 3], [Fin 4, Fin 5, Fin 6], [Fin 7]]]"
  using extract_solid_doc [of "[''1 2 3 4 5 6 7'']"]
  by (simp add: parse_linear_ring_text tokens_seven tuple_eq_def polygon_to_triangles_def)

lemma main_seven:
  "main world0 [gml ''a.gml'' (solid_doc [linear_ring ''1 2 3 4 5 6 7''])] [''out'', ''mesh.json''] 12
     = (world0, Some (ValueError (UnpackNotEnough 1)))"
  by (simp add: main_def limit_files_def slice_to_def gml_def extract_seven)

theorem incomplete_last_tuple_witness:
  "pos_text (linear_ring ''1 2 3 4 5 6 7'') = Some ''1 2 3 4 5 6 7'' \<and>
   floats_of (py_split ''1 2 3 4 5 6 7'') = Inr [Fin 1, Fin 2, Fin 3, Fin 4, Fin 5, Fin 6, Fin 7] \<and>
   \<not> 3 dvd length (py_split ''1 2 3 4 5 6 7'') \<and>
   7 \<le> length (py_split ''1 2 3 4 5 6 7'') \<and>
   parse_linear_ring (linear_ring ''1 2 3 4 5 6 7'')
     = Inr [[Fin 1, Fin 2, Fin 3], [Fin 4, Fin 5, Fin 6], [Fin 7]] \<and>
   (\<exists>ve. sample_triangles
            (polygon_to_triangles [[Fin 1, Fin 2, Fin 3], [Fin 4, Fin 5, Fin 6], [Fin 7]]) [] []
          = Inl (ValueError ve)) \<and>
   main world0 [gml ''a.gml'' (solid_doc [linear_ring ''1 2 3 4 5 6 7''])] [''out'', ''mesh.json''] 12
     = (world0, Some (ValueError (UnpackNotEnough 1)))"
proof -
  let ?raw = "[Fin 1, Fin 2, Fin 3, Fin 4, Fin 5, Fin 6, Fin 7]"
  let ?cs = "[[Fin 1, Fin 2, Fin 3], [Fin 4, Fin 5, Fin 6], [Fin 7]]"
  have h1: "pos_text (linear_ring ''1 2 3 4 5 6 7'') = Some ''1 2 3 4 5 6 7''"
    by simp
  have nd: "\<not> 3 dvd length (py_split ''1 2 3 4 5 6 7'')"
    by (simp add: split_seven)
  have ge: "7 \<le> length (py_split ''1 2 3 4 5 6 7'')"
    by (simp add: split_seven)
  have c: "chunks ?raw 3 = ?cs"
    by simp
  from incomplete_last_tuple [OF h1 tokens_seven] nd ge obtain coords where
    p: "parse_linear_ring (linear_ring ''1 2 3 4 5 6 7'') = Inr coords" and
    e: "coords = chunks ?raw 3" and
    r: "\<forall>lats lons. \<exists>ve.
              sample_triangles (polygon_to_triangles coords) lats lons = Inl (ValueError ve)"
    by blast
  from e c have cs: "coords = ?cs" by simp
  from r have s: "\<exists>ve. sample_triangles (polygon_to_triangles ?cs) [] [] = Inl (ValueError ve)"
    unfolding cs by blast
  from p cs have p': "parse_linear_ring (linear_ring ''1 2 3 4 5 6 7'') = Inr ?cs"
    by simp
  from h1 tokens_seven nd ge p' s main_seven show ?thesis
    by blast
qed

text \<open>
  A ring of four tokens also ends in an incomplete tuple, but it has fewer than three
  tuples: it gives no triangle, and the run on a document that holds it beside a ring of
  triples writes its output.
\<close>

lemma tokens_four: "floats_of (py_split ''1 2 3 4'') = Inr [Fin 1, Fin 2, Fin 3, Fin 4]"
  by (simp add: float_simps split_simps)

lemma extract_four_and_tri:
  "extract_triangles (solid_doc [linear_ring ''1 2 3 4'', linear_ring ''0 0 0 0 1 0 0 1 5 0 0 0''])
     = Inr [[[Fin 0, Fin 0, Fin 0], [Fin 0, Fin 1, Fin 0], [Fin 0, Fin 1, Fin 5]]]"
  using extract_solid_doc [of "[''1 2 3 4'', ''0 0 0 0 1 0 0 1 5 0 0 0'']"]
  by (simp add: parse_linear_ring_text tokens_four parse_tri tuple_eq_def polygon_to_triangles_def)

theorem four_token_ring_counterexample:
  "length (py_split ''1 2 3 4'') = 4 \<and>
   parse_linear_ring (linear_ring ''1 2 3 4'') = Inr [[Fin 1, Fin 2, Fin 3], [Fin 4]] \<and>
   main world0 [gml ''a.gml'' (solid_doc [linear_ring ''1 2 3 4'',
                                          linear_ring ''0 0 0 0 1 0 0 1 5 0 0 0''])]
        [''out'', ''mesh.json''] 12
   = (\<lparr>made_dirs = {[''out'']},
       files = [[''out'', ''mesh.json''] \<mapsto> Json
         \<lparr>origin_lat = Fin 0, origin_lon = Fin (6004799503160661 / 9007199254740992),
          triangles = [[Fin (- (5099871196931249 / 68719476736)), Fin 0, Fin 0,
                        Fin (2549935598465625 / 68719476736), Fin 0, Fin 0,
                        Fin (2549935598465625 / 68719476736), Fin 5, Fin 0]],
          doc_bounds = \<lparr>bounds_min = [Fin (- (5099871196931249 / 68719476736)), Fin 0, Fin 0],
                        bounds_max = [Fin (2549935598465625 / 68719476736), Fin 5, Fin 0]\<rparr>,
          source_files = [''a.gml''],
          lat_scale_m_per_deg = Fin (3799303159231283 / 34359738368), lon_scale_m_per_deg = Fin (3824903397698437 / 34359738368)\<rparr>]\<rparr>, None)"
proof (intro conjI)
  show "length (py_split ''1 2 3 4'') = 4"
    by (simp add: split_simps)
  show "parse_linear_ring (linear_ring ''1 2 3 4'') = Inr [[Fin 1, Fin 2, Fin 3], [Fin 4]]"
    by (simp add: parse_linear_ring_text tokens_four tuple_eq_def)
  show "main world0 [gml ''a.gml'' (solid_doc [linear_ring ''1 2 3 4'',
                                          linear_ring ''0 0 0 0 1 0 0 1 5 0 0 0''])]
        [''out'', ''mesh.json''] 12
   = (\<lparr>made_dirs = {[''out'']},
       files = [[''out'', ''mesh.json''] \<mapsto> Json
         \<lparr>origin_lat = Fin 0, origin_lon = Fin (6004799503160661 / 9007199254740992),
          triangles = [[Fin (- (5099871196931249 / 68719476736)), Fin 0, Fin 0,
                        Fin (2549935598465625 / 68719476736), Fin 0, Fin 0,
                        Fin (2549935598465625 / 68719476736), Fin 5, Fin 0]],
          doc_bounds = \<lparr>bounds_min = [Fin (- (5099871196931249 / 68719476736)), Fin 0, Fin 0],
                        bounds_max = [Fin (2549935598465625 / 68719476736), Fin 5, Fin 0]\<rparr>,
          source_files = [''a.gml''],
          lat_scale_m_per_deg = Fin (3799303159231283 / 34359738368), lon_scale_m_per_deg = Fin (3824903397698437 / 34359738368)\<rparr>]\<rparr>, None)"
    by (simp add: run_simps extract_four_and_tri)
qed

end
